theory Spec2Isabelle
  imports Complex_Main "HOL-Library.Multiset"
begin

section \<open>Data model of the lane runner\<close>

text \<open>
  The model follows the game script with the world of segments and obstacles (the first
  script of \<open>src/unnamed/part_002\<close>, lines 1 to 771), function by function and under
  the names of the source. The game keeps its state in module-level variables; the
  model gathers them in the record \<open>world\<close> and every function takes the world and
  returns the updated one. JavaScript numbers are modelled as exact reals (no rounding,
  no NaN); the properties that rounding affects, the spacing of the segment ring, the
  collision test and the lane step, are stated for the same arithmetic in doubles, with
  the rounding function \<open>fl\<close> of the section on IEEE doubles. A mesh is modelled by
  its \<open>position\<close> vector, the only part of a mesh the game logic reads or writes.
  Scene-graph, HUD and overlay updates are left out.
\<close>

datatype GameState = READY | PLAYING | GAME_OVER

record mesh =
  position_x :: real
  position_y :: real
  position_z :: real

record world =
  gameState :: GameState
  score :: real
  highScore :: real
  elapsedSinceStart :: real
  forwardSpeed :: real
  currentLaneIndex :: int
  targetLaneX :: real
  player :: "mesh option"
  slideSegments :: "mesh list"
  obstacles :: "mesh list"
  isDragging :: bool
  dragStartX :: real
  dragCurrentX :: real
  lastTime :: real
  randomCalls :: nat

text \<open>
  \<open>Math.random()\<close> returns a number in the half-open interval from 0 to 1. The model
  takes the sequence of numbers it returns as a parameter \<open>rnd\<close>; the world counts
  the calls made so far in \<open>randomCalls\<close>.
\<close>

typedef random01 = "{r::real. 0 \<le> r \<and> r < 1}"
  morphisms random_value Abs_random01
  by (rule exI[of _ 0]) simp

type_synonym random_source = "nat \<Rightarrow> random01"

definition Math_random :: "random_source \<Rightarrow> world \<Rightarrow> real \<times> world" where
  "Math_random rnd w =
     (random_value (rnd (randomCalls w)), w\<lparr>randomCalls := Suc (randomCalls w)\<rparr>)"

subsection \<open>Constants\<close>

definition baseForwardSpeed :: real where
  "baseForwardSpeed = 10"

definition LANE_X_POSITIONS :: "real list" where
  "LANE_X_POSITIONS = [-1.5, 0, 1.5]"

definition SEGMENT_LENGTH :: real where
  "SEGMENT_LENGTH = 20"

definition SEGMENT_COUNT :: nat where
  "SEGMENT_COUNT = 8"

definition OBSTACLE_CHANCE_PER_SEGMENT :: real where
  "OBSTACLE_CHANCE_PER_SEGMENT = 0.5"

text \<open>\<open>createScene\<close> puts the camera at \<open>(0, 3, 8)\<close>; nothing moves it afterwards.\<close>

definition camera_position_z :: real where
  "camera_position_z = 8"

subsection \<open>World creation\<close>

definition createPlayer :: "world \<Rightarrow> world" where
  "createPlayer w =
     w\<lparr>player := Some \<lparr>position_x = 0, position_y = 1, position_z = 0\<rparr>\<rparr>"

definition createSlideSegment :: "nat \<Rightarrow> mesh" where
  "createSlideSegment zIndex =
     \<lparr>position_x = 0, position_y = 0, position_z = - real zIndex * SEGMENT_LENGTH\<rparr>"

definition spawnObstacleOnSegment :: "random_source \<Rightarrow> mesh \<Rightarrow> world \<Rightarrow> world" where
  "spawnObstacleOnSegment rnd segment w =
     (let (chance, w1) = Math_random rnd w in
      if chance > OBSTACLE_CHANCE_PER_SEGMENT then w1
      else
        let (r2, w2) = Math_random rnd w1;
            laneIndex = \<lfloor>r2 * real (length LANE_X_POSITIONS)\<rfloor>;
            x = LANE_X_POSITIONS ! nat laneIndex;
            (r3, w3) = Math_random rnd w2;
            localZ = r3 * SEGMENT_LENGTH - SEGMENT_LENGTH / 2;
            box = \<lparr>position_x = x, position_y = 0.6,
                   position_z = position_z segment + localZ\<rparr>
        in w3\<lparr>obstacles := obstacles w3 @ [box]\<rparr>)"

text \<open>One round of the loop \<open>for (let i = 0; i < SEGMENT_COUNT; i++)\<close> of \<open>createWorld\<close>.\<close>

definition createWorldSegment :: "random_source \<Rightarrow> nat \<Rightarrow> world \<Rightarrow> world" where
  "createWorldSegment rnd i w =
     (let seg = createSlideSegment i;
          w1 = w\<lparr>slideSegments := slideSegments w @ [seg]\<rparr>
      in spawnObstacleOnSegment rnd seg w1)"

definition createWorld :: "random_source \<Rightarrow> world \<Rightarrow> world" where
  "createWorld rnd w =
     (let w1 = w\<lparr>slideSegments := [], obstacles := []\<rparr>;
          w2 = fold (createWorldSegment rnd) [0..<SEGMENT_COUNT] w1;
          w3 = (case player w2 of
                  None \<Rightarrow> createPlayer w2
                | Some p \<Rightarrow>
                    w2\<lparr>player := Some (p\<lparr>position_x := 0, position_y := 1, position_z := 0\<rparr>)\<rparr>);
          w4 = w3\<lparr>currentLaneIndex := 1\<rparr>;
          w5 = w4\<lparr>targetLaneX := LANE_X_POSITIONS ! nat (currentLaneIndex w4)\<rparr>
      in w5\<lparr>player := map_option (\<lambda>p. p\<lparr>position_x := targetLaneX w5\<rparr>) (player w5)\<rparr>)"

subsection \<open>Input (lanes)\<close>

definition setLane :: "int \<Rightarrow> world \<Rightarrow> world" where
  "setLane index w =
     (let w1 = w\<lparr>currentLaneIndex := max 0 (min (int (length LANE_X_POSITIONS) - 1) index)\<rparr>
      in w1\<lparr>targetLaneX := LANE_X_POSITIONS ! nat (currentLaneIndex w1)\<rparr>)"

definition onPointerDown :: "real \<Rightarrow> world \<Rightarrow> world" where
  "onPointerDown clientX w =
     w\<lparr>isDragging := True, dragStartX := clientX, dragCurrentX := clientX\<rparr>"

definition onPointerMove :: "real \<Rightarrow> world \<Rightarrow> world" where
  "onPointerMove clientX w =
     (if \<not> isDragging w then w else w\<lparr>dragCurrentX := clientX\<rparr>)"

definition SWIPE_THRESHOLD :: real where
  "SWIPE_THRESHOLD = 40"

definition onPointerUp :: "world \<Rightarrow> world" where
  "onPointerUp w =
     (if \<not> isDragging w then w
      else
        let deltaX = dragCurrentX w - dragStartX w;
            w1 = (if deltaX > SWIPE_THRESHOLD then setLane (currentLaneIndex w + 1) w
                  else if deltaX < - SWIPE_THRESHOLD then setLane (currentLaneIndex w - 1) w
                  else w)
        in w1\<lparr>isDragging := False\<rparr>)"

subsection \<open>Game state helpers\<close>

definition resetGame :: "random_source \<Rightarrow> world \<Rightarrow> world" where
  "resetGame rnd w =
     (let w1 = w\<lparr>score := 0, elapsedSinceStart := 0, forwardSpeed := baseForwardSpeed,
                  currentLaneIndex := 1\<rparr>;
          w2 = w1\<lparr>targetLaneX := LANE_X_POSITIONS ! nat (currentLaneIndex w1)\<rparr>
      in createWorld rnd w2)"

definition startGame :: "random_source \<Rightarrow> world \<Rightarrow> world" where
  "startGame rnd w = (resetGame rnd w)\<lparr>gameState := PLAYING\<rparr>"

definition triggerGameOver :: "world \<Rightarrow> world" where
  "triggerGameOver w =
     (let w1 = w\<lparr>gameState := GAME_OVER\<rparr>
      in if score w1 > highScore w1 then w1\<lparr>highScore := score w1\<rparr> else w1)"

subsection \<open>Game update and collisions\<close>

definition playerRadius :: real where
  "playerRadius = 0.5"

definition obstacleRadius :: real where
  "obstacleRadius = 0.6"

definition distSq :: "mesh \<Rightarrow> mesh \<Rightarrow> real" where
  "distSq playerPos obs =
     (let dx = position_x obs - position_x playerPos;
          dy = position_y obs - position_y playerPos;
          dz = position_z obs - position_z playerPos
      in dx * dx + dy * dy + dz * dz)"

definition hits :: "mesh \<Rightarrow> mesh \<Rightarrow> bool" where
  "hits playerPos obs =
     (let combined = playerRadius + obstacleRadius
      in distSq playerPos obs < combined * combined)"

text \<open>
  The loop \<open>for (const o of obstacles)\<close> of \<open>checkCollisions\<close>: \<open>None\<close> when it
  leaves through \<open>triggerGameOver(); return\<close>, otherwise the list \<open>toRemove\<close>.
\<close>

fun collisionLoop :: "mesh \<Rightarrow> mesh list \<Rightarrow> mesh list \<Rightarrow> mesh list option" where
  "collisionLoop playerPos [] toRemove = Some toRemove"
| "collisionLoop playerPos (obs # rest) toRemove =
     (if hits playerPos obs then None
      else collisionLoop playerPos rest
             (if position_z obs > camera_position_z + 10 then toRemove @ [obs]
              else toRemove))"

text \<open>
  Removing the collected obstacles: \<open>indexOf\<close> followed by \<open>splice(idx, 1)\<close>
  takes out one occurrence, which is \<open>remove1\<close>. Meshes are compared by their
  position here where the source compares object identity; both take the same
  positions out of the list, since every mesh of \<open>toRemove\<close> comes from \<open>obstacles\<close>.
\<close>

definition checkCollisions :: "world \<Rightarrow> world" where
  "checkCollisions w =
     (case player w of
        None \<Rightarrow> w
      | Some playerPos \<Rightarrow>
          (case collisionLoop playerPos (obstacles w) [] of
             None \<Rightarrow> triggerGameOver w
           | Some toRemove \<Rightarrow> w\<lparr>obstacles := fold remove1 toRemove (obstacles w)\<rparr>))"

text \<open>
  The loop \<open>for (let i = obstacles.length - 1; i >= 0; i--)\<close> that clears the
  obstacles near a recycled segment; the counter of the model is \<open>i + 1\<close>.
\<close>

fun clearNear :: "real \<Rightarrow> nat \<Rightarrow> mesh list \<Rightarrow> mesh list" where
  "clearNear segZ 0 obs = obs"
| "clearNear segZ (Suc i) obs =
     clearNear segZ i
       (if \<bar>position_z (obs ! i) - segZ\<bar> < SEGMENT_LENGTH * 0.6
        then take i obs @ drop (Suc i) obs else obs)"

text \<open>The body of \<open>slideSegments.forEach\<close> in \<open>updateGame\<close>, for one segment.\<close>

definition updateSegment :: "random_source \<Rightarrow> real \<Rightarrow> mesh \<Rightarrow> world \<Rightarrow> mesh \<times> world" where
  "updateSegment rnd delta seg w =
     (let seg1 = seg\<lparr>position_z := position_z seg + forwardSpeed w * delta\<rparr>
      in if position_z seg1 - SEGMENT_LENGTH / 2 > camera_position_z + 5 then
           let seg2 = seg1\<lparr>position_z := position_z seg1 - SEGMENT_LENGTH * real SEGMENT_COUNT\<rparr>;
               (r, w1) = Math_random rnd w;
               seg3 = seg2\<lparr>position_x := (r - 0.5) * 1.0\<rparr>;
               w2 = w1\<lparr>obstacles :=
                      clearNear (position_z seg3) (length (obstacles w1)) (obstacles w1)\<rparr>
           in (seg3, spawnObstacleOnSegment rnd seg3 w2)
         else (seg1, w))"

fun forEachSegment :: "random_source \<Rightarrow> real \<Rightarrow> mesh list \<Rightarrow> world \<Rightarrow> mesh list \<times> world" where
  "forEachSegment rnd delta [] w = ([], w)"
| "forEachSegment rnd delta (seg # segs) w =
     (let (seg', w1) = updateSegment rnd delta seg w;
          (segs', w2) = forEachSegment rnd delta segs w1
      in (seg' # segs', w2))"

definition LERP_FACTOR :: real where
  "LERP_FACTOR = 10"

definition updateGame :: "random_source \<Rightarrow> real \<Rightarrow> world \<Rightarrow> world" where
  "updateGame rnd delta w =
     (let w1 = w\<lparr>elapsedSinceStart := elapsedSinceStart w + delta\<rparr>;
          w2 = w1\<lparr>forwardSpeed := baseForwardSpeed + elapsedSinceStart w1 * 0.5\<rparr>;
          w3 = w2\<lparr>score := score w2 + delta * 10\<rparr>;
          w4 = w3\<lparr>player :=
                 map_option
                   (\<lambda>p. p\<lparr>position_x := position_x p
                          + (targetLaneX w3 - position_x p) * min (LERP_FACTOR * delta) 1\<rparr>)
                   (player w3)\<rparr>;
          (segs, w5) = forEachSegment rnd delta (slideSegments w4) w4;
          w6 = w5\<lparr>slideSegments := segs\<rparr>;
          w7 = w6\<lparr>obstacles :=
                 map (\<lambda>obs. obs\<lparr>position_z := position_z obs + forwardSpeed w6 * delta\<rparr>)
                   (obstacles w6)\<rparr>
      in checkCollisions w7)"

subsection \<open>Main loop and event handlers\<close>

definition animate :: "random_source \<Rightarrow> real \<Rightarrow> world \<Rightarrow> world" where
  "animate rnd time w =
     (let delta = min ((time - lastTime w) / 1000) 0.05;
          w1 = w\<lparr>lastTime := time\<rparr>
      in if gameState w1 = PLAYING then updateGame rnd delta w1 else w1)"

definition handleOverlayTap :: "random_source \<Rightarrow> world \<Rightarrow> world" where
  "handleOverlayTap rnd w =
     (if gameState w = READY \<or> gameState w = GAME_OVER then startGame rnd w else w)"

text \<open>
  The values of the module-level variables when the script is loaded, and the world
  after the initialisation code at the end of the script (\<open>createWorld()\<close>) has run.
\<close>

definition initialGlobals :: world where
  "initialGlobals =
     \<lparr>gameState = READY, score = 0, highScore = 0, elapsedSinceStart = 0,
      forwardSpeed = baseForwardSpeed, currentLaneIndex = 1,
      targetLaneX = LANE_X_POSITIONS ! 1, player = None, slideSegments = [],
      obstacles = [], isDragging = False, dragStartX = 0, dragCurrentX = 0,
      lastTime = 0, randomCalls = 0\<rparr>"

definition init :: "random_source \<Rightarrow> world" where
  "init rnd = createWorld rnd initialGlobals"

text \<open>
  The callbacks the script registers: the animation frame, the pointer events of the
  canvas (mouse and touch call the same three functions) and the tap on the overlay.
\<close>

datatype event =
    Frame real
  | PointerDown real
  | PointerMove real
  | PointerUp
  | OverlayTap

fun dispatch :: "random_source \<Rightarrow> event \<Rightarrow> world \<Rightarrow> world" where
  "dispatch rnd (Frame time) w = animate rnd time w"
| "dispatch rnd (PointerDown clientX) w = onPointerDown clientX w"
| "dispatch rnd (PointerMove clientX) w = onPointerMove clientX w"
| "dispatch rnd PointerUp w = onPointerUp w"
| "dispatch rnd OverlayTap w = handleOverlayTap rnd w"

definition run :: "random_source \<Rightarrow> event list \<Rightarrow> world \<Rightarrow> world" where
  "run rnd events w = fold (dispatch rnd) events w"

section \<open>The touch handlers of \<open>src/main.ts\<close>\<close>

text \<open>
  \<open>src/main.ts\<close> is the shell of the game without the world: it has the same game
  state and score variables, and touch and mouse handlers of its own that keep the lane
  in \<open>currentLane\<close> (-1 left, 0 centre, 1 right). Its variables that share a name
  with the ones above carry the suffix \<open>_main\<close>. Mouse events run the same code as
  touch events, on \<open>clientX\<close> and \<open>clientY\<close>.
\<close>

record shell =
  gameState_main :: GameState
  touchStartX :: real
  touchStartY :: real
  isDragging_main :: bool
  currentLane :: int

definition handleTouchStart :: "real \<Rightarrow> real \<Rightarrow> shell \<Rightarrow> shell" where
  "handleTouchStart clientX clientY s =
     (if gameState_main s \<noteq> PLAYING then s
      else s\<lparr>touchStartX := clientX, touchStartY := clientY, isDragging_main := True\<rparr>)"

definition handleTouchMove :: "real \<Rightarrow> real \<Rightarrow> shell \<Rightarrow> shell" where
  "handleTouchMove clientX clientY s =
     (if \<not> isDragging_main s \<or> gameState_main s \<noteq> PLAYING then s
      else
        let deltaX = clientX - touchStartX s;
            deltaY = clientY - touchStartY s
        in if \<bar>deltaX\<bar> > \<bar>deltaY\<bar> \<and> \<bar>deltaX\<bar> > 30 then
             (if deltaX > 0 \<and> currentLane s < 1
              then s\<lparr>currentLane := currentLane s + 1, touchStartX := clientX\<rparr>
              else if deltaX < 0 \<and> currentLane s > -1
              then s\<lparr>currentLane := currentLane s - 1, touchStartX := clientX\<rparr>
              else s)
           else s)"

definition handleTouchEnd :: "shell \<Rightarrow> shell" where
  "handleTouchEnd s = s\<lparr>isDragging_main := False\<rparr>"

section \<open>Auxiliary definitions for the statements\<close>

text \<open>The world at the point where \<open>updateGame\<close> calls \<open>checkCollisions\<close>.\<close>

definition beforeCollisionCheck :: "random_source \<Rightarrow> real \<Rightarrow> world \<Rightarrow> world" where
  "beforeCollisionCheck rnd delta w =
     (let w1 = w\<lparr>elapsedSinceStart := elapsedSinceStart w + delta\<rparr>;
          w2 = w1\<lparr>forwardSpeed := baseForwardSpeed + elapsedSinceStart w1 * 0.5\<rparr>;
          w3 = w2\<lparr>score := score w2 + delta * 10\<rparr>;
          w4 = w3\<lparr>player :=
                 map_option
                   (\<lambda>p. p\<lparr>position_x := position_x p
                          + (targetLaneX w3 - position_x p) * min (LERP_FACTOR * delta) 1\<rparr>)
                   (player w3)\<rparr>;
          (segs, w5) = forEachSegment rnd delta (slideSegments w4) w4;
          w6 = w5\<lparr>slideSegments := segs\<rparr>
      in w6\<lparr>obstacles :=
             map (\<lambda>obs. obs\<lparr>position_z := position_z obs + forwardSpeed w6 * delta\<rparr>)
               (obstacles w6)\<rparr>)"


text \<open>
  The time stamps that \<open>requestAnimationFrame\<close> passes to \<open>animate\<close> never go back:
  every frame of the event list carries a time at or after the previous one, starting
  from \<open>t\<close>. Then every \<open>delta\<close> that \<open>animate\<close> computes is non-negative.
\<close>

fun frames_monotone :: "real \<Rightarrow> event list \<Rightarrow> bool" where
  "frames_monotone t [] = True"
| "frames_monotone t (Frame time # events) = (t \<le> time \<and> frames_monotone time events)"
| "frames_monotone t (e # events) = frames_monotone t events"

text \<open>A source of random numbers that always returns the same number, for examples.\<close>

definition constant_random :: random_source where
  "constant_random = (\<lambda>n. Abs_random01 (1 / 4))"

text \<open>
  Example worlds: the game right after the first tap, and a world ten seconds into a
  game in which one obstacle has passed the player in the right lane and the next one
  comes up in the player's lane.
\<close>

definition startedWorld :: world where
  "startedWorld = startGame constant_random (init constant_random)"

definition crashWorld :: world where
  "crashWorld =
     \<lparr>gameState = PLAYING, score = 99.5, highScore = 40, elapsedSinceStart = 9.95,
      forwardSpeed = 14.975, currentLaneIndex = 1, targetLaneX = 0,
      player = Some \<lparr>position_x = 0, position_y = 1, position_z = 0\<rparr>,
      slideSegments =
        [\<lparr>position_x = 0, position_y = 0, position_z = -35.625\<rparr>,
         \<lparr>position_x = 0, position_y = 0, position_z = -55.625\<rparr>,
         \<lparr>position_x = 0, position_y = 0, position_z = -75.625\<rparr>,
         \<lparr>position_x = 0, position_y = 0, position_z = -95.625\<rparr>,
         \<lparr>position_x = 0, position_y = 0, position_z = -115.625\<rparr>,
         \<lparr>position_x = 0, position_y = 0, position_z = -135.625\<rparr>,
         \<lparr>position_x = 0, position_y = 0, position_z = 4.375\<rparr>,
         \<lparr>position_x = 0, position_y = 0, position_z = -15.625\<rparr>],
      obstacles =
        [\<lparr>position_x = 1.5, position_y = 0.6, position_z = 17.9\<rparr>,
         \<lparr>position_x = 0, position_y = 0.6, position_z = -1.1\<rparr>],
      isDragging = False, dragStartX = 0, dragCurrentX = 0,
      lastTime = 9950, randomCalls = 60\<rparr>"

text \<open>
  The ring of track segments. \<open>ring_congruent\<close>: segment \<open>i\<close> lies \<open>i\<close> segment
  lengths behind segment 0, up to a whole number of ring lengths, for every pair of
  segments. \<open>ring_tiles\<close>: there are \<open>SEGMENT_COUNT\<close> segments and their forward-axis
  positions, sorted, are exactly one segment length apart, so the slabs tile the track
  with no gap and no overlap.
\<close>

definition RING_LENGTH :: real where
  "RING_LENGTH = SEGMENT_LENGTH * real SEGMENT_COUNT"

definition multiple_of_ring :: "real \<Rightarrow> bool" where
  "multiple_of_ring d = (real_of_int \<lfloor>d / RING_LENGTH\<rfloor> * RING_LENGTH = d)"

definition ring_congruent :: "mesh list \<Rightarrow> bool" where
  "ring_congruent segs =
     (\<forall>i < length segs. \<forall>j < length segs.
        multiple_of_ring
          ((position_z (segs ! i) + real i * SEGMENT_LENGTH)
           - (position_z (segs ! j) + real j * SEGMENT_LENGTH)))"

fun spaced :: "real list \<Rightarrow> bool" where
  "spaced (a # b # rest) = (b - a = SEGMENT_LENGTH \<and> spaced (b # rest))"
| "spaced rest = True"

definition ring_tiles :: "mesh list \<Rightarrow> bool" where
  "ring_tiles segs =
     (length segs = SEGMENT_COUNT \<and> spaced (sort (map position_z segs)))"

text \<open>
  The forward-axis coordinate that the loop body of \<open>updateGame\<close> gives a segment at
  \<open>z\<close> in a tick that moves the world by \<open>d = forwardSpeed * delta\<close>.
\<close>

definition recycledZ :: "real \<Rightarrow> real \<Rightarrow> real" where
  "recycledZ d z =
     (let z' = z + d
      in if z' - SEGMENT_LENGTH / 2 > camera_position_z + 5
         then z' - SEGMENT_LENGTH * real SEGMENT_COUNT else z')"

text \<open>
  The invariant behind the ring: the positions are \<open>b + SEGMENT_LENGTH * n\<close> for whole
  numbers \<open>n\<close>, one in each residue class modulo \<open>SEGMENT_COUNT\<close> (segment \<open>i\<close> in
  the class of \<open>- i\<close>), all within fewer than \<open>SEGMENT_COUNT\<close> steps of each other.
\<close>

definition ring_inv :: "real list \<Rightarrow> bool" where
  "ring_inv zs =
     (\<exists>b ns. length ns = SEGMENT_COUNT
        \<and> zs = map (\<lambda>n. b + SEGMENT_LENGTH * real_of_int n) ns
        \<and> (\<forall>i < SEGMENT_COUNT. (ns ! i + int i) mod int SEGMENT_COUNT = 0)
        \<and> (\<forall>i < SEGMENT_COUNT. \<forall>j < SEGMENT_COUNT. ns ! i - ns ! j < int SEGMENT_COUNT))"

text \<open>
  What one tick of length \<open>delta\<close> moves: the player sideways by \<open>lateralStep\<close>,
  and every segment and obstacle forward by \<open>forwardStep\<close>, which is
  \<open>forwardSpeed * delta\<close> with the speed that the tick itself computes.
\<close>

definition lateralStep :: "world \<Rightarrow> real \<Rightarrow> mesh \<Rightarrow> real" where
  "lateralStep w delta p =
     (targetLaneX w - position_x p) * min (LERP_FACTOR * delta) 1"

definition forwardStep :: "world \<Rightarrow> real \<Rightarrow> real" where
  "forwardStep w delta =
     (baseForwardSpeed + (elapsedSinceStart w + delta) * 0.5) * delta"

text \<open>
  A world thirty seconds into a game, with an obstacle placed at exactly the player's
  position.
\<close>

definition lateWorld :: world where
  "lateWorld =
     \<lparr>gameState = PLAYING, score = 300, highScore = 0, elapsedSinceStart = 30,
      forwardSpeed = 25, currentLaneIndex = 1, targetLaneX = 0,
      player = Some \<lparr>position_x = 0, position_y = 1, position_z = 0\<rparr>,
      slideSegments =
        [\<lparr>position_x = 0, position_y = 0, position_z = -115\<rparr>,
         \<lparr>position_x = 0, position_y = 0, position_z = -135\<rparr>,
         \<lparr>position_x = 0, position_y = 0, position_z = 5\<rparr>,
         \<lparr>position_x = 0, position_y = 0, position_z = -15\<rparr>,
         \<lparr>position_x = 0, position_y = 0, position_z = -35\<rparr>,
         \<lparr>position_x = 0, position_y = 0, position_z = -55\<rparr>,
         \<lparr>position_x = 0, position_y = 0, position_z = -75\<rparr>,
         \<lparr>position_x = 0, position_y = 0, position_z = -95\<rparr>],
      obstacles = [\<lparr>position_x = 0, position_y = 1, position_z = 0\<rparr>],
      isDragging = False, dragStartX = 0, dragCurrentX = 0,
      lastTime = 30000, randomCalls = 60\<rparr>"

text \<open>
  The survival time accumulated over a list of events, read off the events alone: a
  start or restart sets it to 0, every frame that arrives while the game is PLAYING
  adds the delta time that \<open>animate\<close> computes for it, and nothing else changes it.
\<close>

fun survivalTime :: "random_source \<Rightarrow> real \<Rightarrow> event list \<Rightarrow> world \<Rightarrow> real" where
  "survivalTime rnd acc [] w = acc"
| "survivalTime rnd acc (e # events) w =
     survivalTime rnd
       (case e of
          Frame time \<Rightarrow>
            if gameState w = PLAYING then acc + min ((time - lastTime w) / 1000) 0.05
            else acc
        | OverlayTap \<Rightarrow>
            if gameState w = READY \<or> gameState w = GAME_OVER then 0 else acc
        | _ \<Rightarrow> acc)
       events (dispatch rnd e w)"


section \<open>IEEE doubles\<close>

text \<open>
  The game computes with JavaScript numbers, IEEE 754 binary64, and the definitions above
  compute with exact reals. Where a property depends on rounding, the arithmetic of the
  source line is repeated below with every operation rounded by \<open>fl\<close>: round to
  nearest with 53 significant bits, ties to the even significand. \<open>rne\<close> rounds a
  real to the nearest whole number, ties to even; \<open>fl_pos\<close> rounds a positive real
  on the grid of its binade. The exponent range of \<open>fl\<close> is not bounded: it agrees
  with binary64 as long as no result overflows or falls below the normal range.
\<close>

definition rne :: "real \<Rightarrow> int" where
  "rne y =
     (let n = \<lfloor>y\<rfloor>; r = y - real_of_int n
      in if r < 1 / 2 then n
         else if r > 1 / 2 then n + 1
         else if even n then n else n + 1)"

definition fl_pos :: "real \<Rightarrow> real" where
  "fl_pos x =
     (let u = 2 powi (\<lfloor>log 2 x\<rfloor> - 52)
      in real_of_int (rne (x / u)) * u)"

definition fl :: "real \<Rightarrow> real" where
  "fl x = (if x = 0 then 0 else if x < 0 then - fl_pos (- x) else fl_pos x)"

text \<open>
  The lane step of \<open>updateGame\<close> in doubles:
  \<open>player.position.x += (targetLaneX - player.position.x) * Math.min(LERP_FACTOR * delta, 1)\<close>.
\<close>

definition lerp_fl :: "real \<Rightarrow> real \<Rightarrow> real \<Rightarrow> real" where
  "lerp_fl x target delta =
     fl (x + fl (fl (target - x) * min (fl (LERP_FACTOR * delta)) 1))"

text \<open>
  The segment loop of \<open>updateGame\<close> in doubles. \<open>forwardSpeed_fl\<close> is
  \<open>forwardSpeed = baseForwardSpeed + elapsedSinceStart * 0.5\<close>; \<open>recycledZ_fl\<close> is
  the body of the loop for one segment, \<open>seg.position.z += forwardSpeed * delta\<close>
  followed by the recycle test and \<open>seg.position.z -= SEGMENT_LENGTH * SEGMENT_COUNT\<close>;
  \<open>ticks_fl\<close> runs one tick for every delta time of a list on the elapsed time and
  the forward-axis positions of the segments, and \<open>startedRing_fl\<close> is what
  \<open>startGame\<close> leaves: no time elapsed and segment \<open>i\<close> at
  \<open>-i * SEGMENT_LENGTH\<close>.
\<close>

definition forwardSpeed_fl :: "real \<Rightarrow> real" where
  "forwardSpeed_fl elapsed = fl (baseForwardSpeed + fl (elapsed * 0.5))"

definition recycledZ_fl :: "real \<Rightarrow> real \<Rightarrow> real \<Rightarrow> real" where
  "recycledZ_fl speed delta z =
     (let z' = fl (z + fl (speed * delta))
      in if fl (z' - fl (SEGMENT_LENGTH / 2)) > fl (camera_position_z + 5)
         then fl (z' - fl (SEGMENT_LENGTH * real SEGMENT_COUNT)) else z')"

fun ticks_fl :: "real list \<Rightarrow> real \<times> real list \<Rightarrow> real \<times> real list" where
  "ticks_fl [] (elapsed, zs) = (elapsed, zs)"
| "ticks_fl (delta # deltas) (elapsed, zs) =
     (let elapsed' = fl (elapsed + delta);
          speed = forwardSpeed_fl elapsed'
      in ticks_fl deltas (elapsed', map (recycledZ_fl speed delta) zs))"

definition startedRing_fl :: "real \<times> real list" where
  "startedRing_fl = (0, map (\<lambda>i. fl (- real i * SEGMENT_LENGTH)) [0..<SEGMENT_COUNT])"

text \<open>
  The invariant behind the ring in doubles: every position is a double between -140 and
  24 that lies within \<open>err\<close> of its place \<open>b + SEGMENT_LENGTH * n\<close> in a ring
  as described by \<open>ring_inv\<close>.
\<close>

definition ring_inv_fl :: "real \<Rightarrow> real list \<Rightarrow> bool" where
  "ring_inv_fl err zs =
     (\<exists>b ns. length ns = SEGMENT_COUNT \<and> length zs = SEGMENT_COUNT
        \<and> (\<forall>i < SEGMENT_COUNT. (ns ! i + int i) mod int SEGMENT_COUNT = 0)
        \<and> (\<forall>i < SEGMENT_COUNT. \<forall>j < SEGMENT_COUNT. ns ! i - ns ! j < int SEGMENT_COUNT)
        \<and> (\<forall>i < SEGMENT_COUNT.
              fl (zs ! i) = zs ! i \<and> - 140 \<le> zs ! i \<and> zs ! i \<le> 24
              \<and> \<bar>zs ! i - (b + SEGMENT_LENGTH * real_of_int (ns ! i))\<bar> \<le> err))"

text \<open>
  The collision test of \<open>checkCollisions\<close> in doubles, and one tick of
  \<open>updateGame\<close> in doubles as seen by an obstacle that starts at the position of the
  player \<open>p\<close>: \<open>cleared_fl\<close> is the test \<open>Math.abs(o.position.z - seg.position.z)
  < SEGMENT_LENGTH * 0.6\<close> for a segment that the tick recycles, applied to the obstacle
  before it moves, and \<open>tickHits_fl\<close> holds when no segment clears the obstacle and
  \<open>checkCollisions\<close> finds the moved obstacle within the combined radius of the moved
  player.
\<close>

definition distSq_fl :: "mesh \<Rightarrow> mesh \<Rightarrow> real" where
  "distSq_fl playerPos obs =
     (let dx = fl (position_x obs - position_x playerPos);
          dy = fl (position_y obs - position_y playerPos);
          dz = fl (position_z obs - position_z playerPos)
      in fl (fl (fl (dx * dx) + fl (dy * dy)) + fl (dz * dz)))"

definition hits_fl :: "mesh \<Rightarrow> mesh \<Rightarrow> bool" where
  "hits_fl playerPos obs =
     (let combined = fl (fl playerRadius + fl obstacleRadius)
      in distSq_fl playerPos obs < fl (combined * combined))"

definition cleared_fl :: "real \<Rightarrow> real \<Rightarrow> real \<Rightarrow> real \<Rightarrow> bool" where
  "cleared_fl speed delta segZ obsZ =
     (fl (fl (segZ + fl (speed * delta)) - fl (SEGMENT_LENGTH / 2)) > fl (camera_position_z + 5)
      \<and> \<bar>fl (obsZ - recycledZ_fl speed delta segZ)\<bar> < fl (SEGMENT_LENGTH * fl 0.6))"

definition tickHits_fl :: "world \<Rightarrow> real \<Rightarrow> mesh \<Rightarrow> bool" where
  "tickHits_fl w delta p =
     (let elapsed = fl (elapsedSinceStart w + delta);
          speed = forwardSpeed_fl elapsed;
          p' = p\<lparr>position_x := lerp_fl (position_x p) (targetLaneX w) delta\<rparr>;
          obs' = p\<lparr>position_z := fl (position_z p + fl (speed * delta))\<rparr>
      in list_all (\<lambda>seg. \<not> cleared_fl speed delta (position_z seg) (position_z p))
           (slideSegments w)
         \<and> hits_fl p' obs')"
section \<open>Which variables each function writes\<close>

lemma spawn_skip:
  "random_value (rnd (randomCalls w)) > OBSTACLE_CHANCE_PER_SEGMENT \<Longrightarrow>
   spawnObstacleOnSegment rnd seg w = w\<lparr>randomCalls := Suc (randomCalls w)\<rparr>"
  by (simp add: spawnObstacleOnSegment_def Math_random_def)

lemma spawn_box:
  "\<not> random_value (rnd (randomCalls w)) > OBSTACLE_CHANCE_PER_SEGMENT \<Longrightarrow>
   spawnObstacleOnSegment rnd seg w =
     w\<lparr>randomCalls := Suc (Suc (Suc (randomCalls w))),
       obstacles := obstacles w @
        [\<lparr>position_x = LANE_X_POSITIONS !
             nat \<lfloor>random_value (rnd (Suc (randomCalls w))) * real (length LANE_X_POSITIONS)\<rfloor>,
          position_y = 0.6,
          position_z = position_z seg
            + (random_value (rnd (Suc (Suc (randomCalls w)))) * SEGMENT_LENGTH
               - SEGMENT_LENGTH / 2)\<rparr>]\<rparr>"
  by (simp add: spawnObstacleOnSegment_def Math_random_def Let_def)

lemma spawn_frame:
  "gameState (spawnObstacleOnSegment rnd seg w) = gameState w"
  "score (spawnObstacleOnSegment rnd seg w) = score w"
  "highScore (spawnObstacleOnSegment rnd seg w) = highScore w"
  "elapsedSinceStart (spawnObstacleOnSegment rnd seg w) = elapsedSinceStart w"
  "forwardSpeed (spawnObstacleOnSegment rnd seg w) = forwardSpeed w"
  "currentLaneIndex (spawnObstacleOnSegment rnd seg w) = currentLaneIndex w"
  "targetLaneX (spawnObstacleOnSegment rnd seg w) = targetLaneX w"
  "player (spawnObstacleOnSegment rnd seg w) = player w"
  "slideSegments (spawnObstacleOnSegment rnd seg w) = slideSegments w"
  "isDragging (spawnObstacleOnSegment rnd seg w) = isDragging w"
  "dragStartX (spawnObstacleOnSegment rnd seg w) = dragStartX w"
  "dragCurrentX (spawnObstacleOnSegment rnd seg w) = dragCurrentX w"
  "lastTime (spawnObstacleOnSegment rnd seg w) = lastTime w"
  by (cases "random_value (rnd (randomCalls w)) > OBSTACLE_CHANCE_PER_SEGMENT";
      simp add: spawn_skip spawn_box)+

lemma updateSegment_frame:
  "gameState (snd (updateSegment rnd delta seg w)) = gameState w"
  "score (snd (updateSegment rnd delta seg w)) = score w"
  "highScore (snd (updateSegment rnd delta seg w)) = highScore w"
  "elapsedSinceStart (snd (updateSegment rnd delta seg w)) = elapsedSinceStart w"
  "forwardSpeed (snd (updateSegment rnd delta seg w)) = forwardSpeed w"
  "currentLaneIndex (snd (updateSegment rnd delta seg w)) = currentLaneIndex w"
  "targetLaneX (snd (updateSegment rnd delta seg w)) = targetLaneX w"
  "player (snd (updateSegment rnd delta seg w)) = player w"
  "slideSegments (snd (updateSegment rnd delta seg w)) = slideSegments w"
  "isDragging (snd (updateSegment rnd delta seg w)) = isDragging w"
  "dragStartX (snd (updateSegment rnd delta seg w)) = dragStartX w"
  "dragCurrentX (snd (updateSegment rnd delta seg w)) = dragCurrentX w"
  "lastTime (snd (updateSegment rnd delta seg w)) = lastTime w"
  by (simp_all add: updateSegment_def Math_random_def Let_def spawn_frame)

lemma forEachSegment_Cons_fst:
  "fst (forEachSegment rnd delta (seg # segs) w) =
     fst (updateSegment rnd delta seg w)
     # fst (forEachSegment rnd delta segs (snd (updateSegment rnd delta seg w)))"
  by (simp split: prod.splits)

lemma forEachSegment_Cons_snd:
  "snd (forEachSegment rnd delta (seg # segs) w) =
     snd (forEachSegment rnd delta segs (snd (updateSegment rnd delta seg w)))"
  by (simp split: prod.splits)

lemma forEachSegment_frame:
  "gameState (snd (forEachSegment rnd delta segs w)) = gameState w"
  "score (snd (forEachSegment rnd delta segs w)) = score w"
  "highScore (snd (forEachSegment rnd delta segs w)) = highScore w"
  "elapsedSinceStart (snd (forEachSegment rnd delta segs w)) = elapsedSinceStart w"
  "forwardSpeed (snd (forEachSegment rnd delta segs w)) = forwardSpeed w"
  "currentLaneIndex (snd (forEachSegment rnd delta segs w)) = currentLaneIndex w"
  "targetLaneX (snd (forEachSegment rnd delta segs w)) = targetLaneX w"
  "player (snd (forEachSegment rnd delta segs w)) = player w"
  "slideSegments (snd (forEachSegment rnd delta segs w)) = slideSegments w"
  "isDragging (snd (forEachSegment rnd delta segs w)) = isDragging w"
  "dragStartX (snd (forEachSegment rnd delta segs w)) = dragStartX w"
  "dragCurrentX (snd (forEachSegment rnd delta segs w)) = dragCurrentX w"
  "lastTime (snd (forEachSegment rnd delta segs w)) = lastTime w"
  by (induction segs arbitrary: w)
     (simp_all add: forEachSegment_Cons_snd updateSegment_frame del: forEachSegment.simps(2))

lemma triggerGameOver_frame:
  "score (triggerGameOver w) = score w"
  "elapsedSinceStart (triggerGameOver w) = elapsedSinceStart w"
  "forwardSpeed (triggerGameOver w) = forwardSpeed w"
  "currentLaneIndex (triggerGameOver w) = currentLaneIndex w"
  "targetLaneX (triggerGameOver w) = targetLaneX w"
  "player (triggerGameOver w) = player w"
  "slideSegments (triggerGameOver w) = slideSegments w"
  "isDragging (triggerGameOver w) = isDragging w"
  "dragStartX (triggerGameOver w) = dragStartX w"
  "dragCurrentX (triggerGameOver w) = dragCurrentX w"
  "lastTime (triggerGameOver w) = lastTime w"
  "obstacles (triggerGameOver w) = obstacles w"
  "randomCalls (triggerGameOver w) = randomCalls w"
  by (simp_all add: triggerGameOver_def Let_def)

lemma checkCollisions_frame:
  "score (checkCollisions w) = score w"
  "elapsedSinceStart (checkCollisions w) = elapsedSinceStart w"
  "forwardSpeed (checkCollisions w) = forwardSpeed w"
  "currentLaneIndex (checkCollisions w) = currentLaneIndex w"
  "targetLaneX (checkCollisions w) = targetLaneX w"
  "player (checkCollisions w) = player w"
  "slideSegments (checkCollisions w) = slideSegments w"
  "isDragging (checkCollisions w) = isDragging w"
  "dragStartX (checkCollisions w) = dragStartX w"
  "dragCurrentX (checkCollisions w) = dragCurrentX w"
  "lastTime (checkCollisions w) = lastTime w"
  "randomCalls (checkCollisions w) = randomCalls w"
  by (simp_all add: checkCollisions_def triggerGameOver_frame split: option.splits)

lemma updateGame_checkCollisions:
  "updateGame rnd delta w = checkCollisions (beforeCollisionCheck rnd delta w)"
  by (simp add: updateGame_def beforeCollisionCheck_def Let_def split: prod.splits)

lemma beforeCollisionCheck_fields:
  "gameState (beforeCollisionCheck rnd delta w) = gameState w"
  "highScore (beforeCollisionCheck rnd delta w) = highScore w"
  "score (beforeCollisionCheck rnd delta w) = score w + delta * 10"
  "elapsedSinceStart (beforeCollisionCheck rnd delta w) = elapsedSinceStart w + delta"
  "forwardSpeed (beforeCollisionCheck rnd delta w) =
     baseForwardSpeed + (elapsedSinceStart w + delta) * 0.5"
  "currentLaneIndex (beforeCollisionCheck rnd delta w) = currentLaneIndex w"
  "targetLaneX (beforeCollisionCheck rnd delta w) = targetLaneX w"
  "player (beforeCollisionCheck rnd delta w) =
     map_option
       (\<lambda>p. p\<lparr>position_x := position_x p
              + (targetLaneX w - position_x p) * min (LERP_FACTOR * delta) 1\<rparr>)
       (player w)"
  "isDragging (beforeCollisionCheck rnd delta w) = isDragging w"
  "dragStartX (beforeCollisionCheck rnd delta w) = dragStartX w"
  "dragCurrentX (beforeCollisionCheck rnd delta w) = dragCurrentX w"
  "lastTime (beforeCollisionCheck rnd delta w) = lastTime w"
  unfolding beforeCollisionCheck_def Let_def case_prod_beta
  by (simp_all add: forEachSegment_frame)


lemma createWorldSegment_frame:
  "gameState (createWorldSegment rnd i w) = gameState w"
  "score (createWorldSegment rnd i w) = score w"
  "highScore (createWorldSegment rnd i w) = highScore w"
  "elapsedSinceStart (createWorldSegment rnd i w) = elapsedSinceStart w"
  "forwardSpeed (createWorldSegment rnd i w) = forwardSpeed w"
  "currentLaneIndex (createWorldSegment rnd i w) = currentLaneIndex w"
  "targetLaneX (createWorldSegment rnd i w) = targetLaneX w"
  "player (createWorldSegment rnd i w) = player w"
  "isDragging (createWorldSegment rnd i w) = isDragging w"
  "dragStartX (createWorldSegment rnd i w) = dragStartX w"
  "dragCurrentX (createWorldSegment rnd i w) = dragCurrentX w"
  "lastTime (createWorldSegment rnd i w) = lastTime w"
  "slideSegments (createWorldSegment rnd i w) = slideSegments w @ [createSlideSegment i]"
  by (simp_all add: createWorldSegment_def Let_def spawn_frame)

lemma fold_createWorldSegment_frame:
  "gameState (fold (createWorldSegment rnd) is w) = gameState w"
  "score (fold (createWorldSegment rnd) is w) = score w"
  "highScore (fold (createWorldSegment rnd) is w) = highScore w"
  "elapsedSinceStart (fold (createWorldSegment rnd) is w) = elapsedSinceStart w"
  "forwardSpeed (fold (createWorldSegment rnd) is w) = forwardSpeed w"
  "currentLaneIndex (fold (createWorldSegment rnd) is w) = currentLaneIndex w"
  "targetLaneX (fold (createWorldSegment rnd) is w) = targetLaneX w"
  "player (fold (createWorldSegment rnd) is w) = player w"
  "isDragging (fold (createWorldSegment rnd) is w) = isDragging w"
  "dragStartX (fold (createWorldSegment rnd) is w) = dragStartX w"
  "dragCurrentX (fold (createWorldSegment rnd) is w) = dragCurrentX w"
  "lastTime (fold (createWorldSegment rnd) is w) = lastTime w"
  "slideSegments (fold (createWorldSegment rnd) is w) =
     slideSegments w @ map createSlideSegment is"
  by (induction "is" arbitrary: w) (simp_all add: createWorldSegment_frame)

lemma createWorld_fields:
  "gameState (createWorld rnd w) = gameState w"
  "score (createWorld rnd w) = score w"
  "highScore (createWorld rnd w) = highScore w"
  "elapsedSinceStart (createWorld rnd w) = elapsedSinceStart w"
  "forwardSpeed (createWorld rnd w) = forwardSpeed w"
  "isDragging (createWorld rnd w) = isDragging w"
  "dragStartX (createWorld rnd w) = dragStartX w"
  "dragCurrentX (createWorld rnd w) = dragCurrentX w"
  "lastTime (createWorld rnd w) = lastTime w"
  "currentLaneIndex (createWorld rnd w) = 1"
  "targetLaneX (createWorld rnd w) = 0"
  "player (createWorld rnd w) = Some \<lparr>position_x = 0, position_y = 1, position_z = 0\<rparr>"
  "slideSegments (createWorld rnd w) = map createSlideSegment [0..<SEGMENT_COUNT]"
  by (simp_all add: createWorld_def Let_def fold_createWorldSegment_frame createPlayer_def
        LANE_X_POSITIONS_def split: option.splits)

lemma startGame_fields:
  "gameState (startGame rnd w) = PLAYING"
  "score (startGame rnd w) = 0"
  "elapsedSinceStart (startGame rnd w) = 0"
  "forwardSpeed (startGame rnd w) = baseForwardSpeed"
  "highScore (startGame rnd w) = highScore w"
  "lastTime (startGame rnd w) = lastTime w"
  "isDragging (startGame rnd w) = isDragging w"
  "dragStartX (startGame rnd w) = dragStartX w"
  "dragCurrentX (startGame rnd w) = dragCurrentX w"
  "currentLaneIndex (startGame rnd w) = 1"
  "targetLaneX (startGame rnd w) = 0"
  "player (startGame rnd w) = Some \<lparr>position_x = 0, position_y = 1, position_z = 0\<rparr>"
  "slideSegments (startGame rnd w) = map createSlideSegment [0..<SEGMENT_COUNT]"
  by (simp_all add: startGame_def resetGame_def Let_def createWorld_fields)

lemma init_fields:
  "gameState (init rnd) = READY"
  "score (init rnd) = 0"
  "highScore (init rnd) = 0"
  "elapsedSinceStart (init rnd) = 0"
  "forwardSpeed (init rnd) = baseForwardSpeed"
  "lastTime (init rnd) = 0"
  "isDragging (init rnd) = False"
  "currentLaneIndex (init rnd) = 1"
  "targetLaneX (init rnd) = 0"
  "player (init rnd) = Some \<lparr>position_x = 0, position_y = 1, position_z = 0\<rparr>"
  "slideSegments (init rnd) = map createSlideSegment [0..<SEGMENT_COUNT]"
  by (simp_all add: init_def initialGlobals_def createWorld_fields)

lemma setLane_frame:
  "gameState (setLane i w) = gameState w"
  "score (setLane i w) = score w"
  "highScore (setLane i w) = highScore w"
  "elapsedSinceStart (setLane i w) = elapsedSinceStart w"
  "forwardSpeed (setLane i w) = forwardSpeed w"
  "player (setLane i w) = player w"
  "slideSegments (setLane i w) = slideSegments w"
  "isDragging (setLane i w) = isDragging w"
  "dragStartX (setLane i w) = dragStartX w"
  "dragCurrentX (setLane i w) = dragCurrentX w"
  "lastTime (setLane i w) = lastTime w"
  "obstacles (setLane i w) = obstacles w"
  by (simp_all add: setLane_def Let_def)

lemma pointer_frame:
  "gameState (onPointerDown x w) = gameState w"
  "score (onPointerDown x w) = score w"
  "highScore (onPointerDown x w) = highScore w"
  "elapsedSinceStart (onPointerDown x w) = elapsedSinceStart w"
  "forwardSpeed (onPointerDown x w) = forwardSpeed w"
  "player (onPointerDown x w) = player w"
  "slideSegments (onPointerDown x w) = slideSegments w"
  "lastTime (onPointerDown x w) = lastTime w"
  "gameState (onPointerMove x w) = gameState w"
  "score (onPointerMove x w) = score w"
  "highScore (onPointerMove x w) = highScore w"
  "elapsedSinceStart (onPointerMove x w) = elapsedSinceStart w"
  "forwardSpeed (onPointerMove x w) = forwardSpeed w"
  "player (onPointerMove x w) = player w"
  "slideSegments (onPointerMove x w) = slideSegments w"
  "lastTime (onPointerMove x w) = lastTime w"
  "gameState (onPointerUp w) = gameState w"
  "score (onPointerUp w) = score w"
  "highScore (onPointerUp w) = highScore w"
  "elapsedSinceStart (onPointerUp w) = elapsedSinceStart w"
  "forwardSpeed (onPointerUp w) = forwardSpeed w"
  "player (onPointerUp w) = player w"
  "slideSegments (onPointerUp w) = slideSegments w"
  "lastTime (onPointerUp w) = lastTime w"
  by (simp_all add: onPointerDown_def onPointerMove_def onPointerUp_def Let_def setLane_frame)

lemma updateGame_fields:
  "score (updateGame rnd delta w) = score w + delta * 10"
  "elapsedSinceStart (updateGame rnd delta w) = elapsedSinceStart w + delta"
  "forwardSpeed (updateGame rnd delta w) =
     baseForwardSpeed + (elapsedSinceStart w + delta) * 0.5"
  "currentLaneIndex (updateGame rnd delta w) = currentLaneIndex w"
  "targetLaneX (updateGame rnd delta w) = targetLaneX w"
  "player (updateGame rnd delta w) =
     map_option
       (\<lambda>p. p\<lparr>position_x := position_x p
              + (targetLaneX w - position_x p) * min (LERP_FACTOR * delta) 1\<rparr>)
       (player w)"
  "isDragging (updateGame rnd delta w) = isDragging w"
  "dragStartX (updateGame rnd delta w) = dragStartX w"
  "dragCurrentX (updateGame rnd delta w) = dragCurrentX w"
  "lastTime (updateGame rnd delta w) = lastTime w"
  by (simp_all add: updateGame_checkCollisions checkCollisions_frame
        beforeCollisionCheck_fields)

section \<open>Sequences of events\<close>

lemma run_Nil: "run rnd [] w = w"
  by (simp add: run_def)

lemma run_Cons: "run rnd (e # es) w = run rnd es (dispatch rnd e w)"
  by (simp add: run_def)

lemma run_snoc: "run rnd (es @ [e]) w = dispatch rnd e (run rnd es w)"
  by (simp add: run_def)

lemma animate_lastTime: "lastTime (animate rnd t w) = t"
  by (simp add: animate_def Let_def updateGame_fields)

lemma handleOverlayTap_lastTime: "lastTime (handleOverlayTap rnd w) = lastTime w"
  by (simp add: handleOverlayTap_def startGame_fields)

lemma dispatch_lastTime:
  "lastTime (dispatch rnd e w) = (case e of Frame t \<Rightarrow> t | _ \<Rightarrow> lastTime w)"
  by (cases e) (simp_all add: animate_lastTime handleOverlayTap_lastTime pointer_frame)

lemma frames_monotone_Cons:
  "frames_monotone t (e # es) =
     ((case e of Frame time \<Rightarrow> t \<le> time | _ \<Rightarrow> True)
      \<and> frames_monotone (case e of Frame time \<Rightarrow> time | _ \<Rightarrow> t) es)"
  by (cases e) simp_all

lemma frames_monotone_snoc:
  "frames_monotone (lastTime w) (es @ [Frame t]) \<Longrightarrow> lastTime (run rnd es w) \<le> t"
proof (induction es arbitrary: w)
  case Nil
  then show ?case by (simp add: run_Nil)
next
  case (Cons e es)
  from Cons.prems have "frames_monotone (lastTime (dispatch rnd e w)) (es @ [Frame t])"
    by (cases e)
       (simp_all add: animate_lastTime handleOverlayTap_lastTime pointer_frame)
  then show ?case using Cons.IH by (simp add: run_Cons)
qed

text \<open>Invariants of the reachable worlds are proved event by event.\<close>

lemma run_invariant:
  assumes mono: "frames_monotone (lastTime w) es"
    and start: "I w"
    and step: "\<And>e v. I v \<Longrightarrow> (case e of Frame t \<Rightarrow> lastTime v \<le> t | _ \<Rightarrow> True)
                 \<Longrightarrow> I (dispatch rnd e v)"
  shows "I (run rnd es w)"
  using mono start
proof (induction es arbitrary: w)
  case Nil
  then show ?case by (simp add: run_Nil)
next
  case (Cons e es)
  from Cons.prems(1) have ok: "case e of Frame t \<Rightarrow> lastTime w \<le> t | _ \<Rightarrow> True"
    and rest: "frames_monotone (lastTime (dispatch rnd e w)) es"
    by (cases e; simp add: animate_lastTime handleOverlayTap_lastTime pointer_frame)+
  from step[OF Cons.prems(2) ok] have "I (dispatch rnd e w)" .
  from Cons.IH[OF rest this] show ?case by (simp add: run_Cons)
qed


lemma run_invariant_any:
  assumes "I w" and "\<And>e v. I v \<Longrightarrow> I (dispatch rnd e v)"
  shows "I (run rnd es w)"
  using assms(1)
  by (induction es arbitrary: w) (simp_all add: run_Nil run_Cons assms(2))



section \<open>Collisions and the sweep of passed obstacles\<close>

lemma collisionLoop_hit:
  "\<exists>obs \<in> set obstacleList. hits playerPos obs \<Longrightarrow>
   collisionLoop playerPos obstacleList toRemove = None"
  by (induction obstacleList arbitrary: toRemove) auto

lemma collisionLoop_miss:
  "\<forall>obs \<in> set obstacleList. \<not> hits playerPos obs \<Longrightarrow>
   collisionLoop playerPos obstacleList toRemove =
     Some (toRemove @ filter (\<lambda>obs. position_z obs > camera_position_z + 10) obstacleList)"
  by (induction obstacleList arbitrary: toRemove) auto

lemma fold_remove1_Cons:
  "x \<notin> set ys \<Longrightarrow> fold remove1 ys (x # xs) = x # fold remove1 ys xs"
  by (induction ys arbitrary: xs) auto

lemma fold_remove1_filter:
  "fold remove1 (filter P xs) xs = filter (\<lambda>x. \<not> P x) xs"
  by (induction xs) (auto simp: fold_remove1_Cons)

lemma checkCollisions_hit:
  assumes "player w = Some playerPos" "\<exists>obs \<in> set (obstacles w). hits playerPos obs"
  shows "checkCollisions w = triggerGameOver w"
  using assms by (simp add: checkCollisions_def collisionLoop_hit)

lemma checkCollisions_miss:
  assumes "player w = Some playerPos" "\<forall>obs \<in> set (obstacles w). \<not> hits playerPos obs"
  shows "checkCollisions w =
    w\<lparr>obstacles := filter (\<lambda>obs. \<not> position_z obs > camera_position_z + 10) (obstacles w)\<rparr>"
  using assms by (simp add: checkCollisions_def collisionLoop_miss fold_remove1_filter)

lemma checkCollisions_cases:
  assumes "player w = Some playerPos"
  shows "checkCollisions w = triggerGameOver w
    \<or> checkCollisions w =
        w\<lparr>obstacles := filter (\<lambda>obs. \<not> position_z obs > camera_position_z + 10) (obstacles w)\<rparr>"
  using checkCollisions_hit[OF assms] checkCollisions_miss[OF assms] by blast


section \<open>The example worlds, evaluated\<close>

lemma random_value_constant: "random_value (constant_random n) = 1 / 4"
  by (simp add: constant_random_def Abs_random01_inverse)

lemma startedWorld_eval:
  "startedWorld =
     \<lparr>gameState = PLAYING, score = 0, highScore = 0, elapsedSinceStart = 0,
      forwardSpeed = 10, currentLaneIndex = 1, targetLaneX = 0,
      player = Some \<lparr>position_x = 0, position_y = 1, position_z = 0\<rparr>,
      slideSegments =
        [\<lparr>position_x = 0, position_y = 0, position_z = 0\<rparr>,
         \<lparr>position_x = 0, position_y = 0, position_z = - 20\<rparr>,
         \<lparr>position_x = 0, position_y = 0, position_z = - 40\<rparr>,
         \<lparr>position_x = 0, position_y = 0, position_z = - 60\<rparr>,
         \<lparr>position_x = 0, position_y = 0, position_z = - 80\<rparr>,
         \<lparr>position_x = 0, position_y = 0, position_z = - 100\<rparr>,
         \<lparr>position_x = 0, position_y = 0, position_z = - 120\<rparr>,
         \<lparr>position_x = 0, position_y = 0, position_z = - 140\<rparr>],
      obstacles =
        [\<lparr>position_x = - 1.5, position_y = 0.6, position_z = - 5\<rparr>,
         \<lparr>position_x = - 1.5, position_y = 0.6, position_z = - 25\<rparr>,
         \<lparr>position_x = - 1.5, position_y = 0.6, position_z = - 45\<rparr>,
         \<lparr>position_x = - 1.5, position_y = 0.6, position_z = - 65\<rparr>,
         \<lparr>position_x = - 1.5, position_y = 0.6, position_z = - 85\<rparr>,
         \<lparr>position_x = - 1.5, position_y = 0.6, position_z = - 105\<rparr>,
         \<lparr>position_x = - 1.5, position_y = 0.6, position_z = - 125\<rparr>,
         \<lparr>position_x = - 1.5, position_y = 0.6, position_z = - 145\<rparr>],
      isDragging = False, dragStartX = 0, dragCurrentX = 0, lastTime = 0,
      randomCalls = 48\<rparr>"
  by (simp add: startedWorld_def startGame_def resetGame_def createWorld_def init_def
        initialGlobals_def Let_def SEGMENT_COUNT_def upt_rec[of _ "numeral _"]
        upt_rec[of _ "Suc _"] createWorldSegment_def createSlideSegment_def
        spawnObstacleOnSegment_def Math_random_def random_value_constant
        OBSTACLE_CHANCE_PER_SEGMENT_def createPlayer_def LANE_X_POSITIONS_def
        SEGMENT_LENGTH_def baseForwardSpeed_def)

lemma crashWorld_tick:
  "animate constant_random 10000 crashWorld =
     crashWorld\<lparr>gameState := GAME_OVER, score := 100, highScore := 100,
       elapsedSinceStart := 10, forwardSpeed := 15, lastTime := 10000,
       slideSegments :=
         [\<lparr>position_x = 0, position_y = 0, position_z = -34.875\<rparr>,
          \<lparr>position_x = 0, position_y = 0, position_z = -54.875\<rparr>,
          \<lparr>position_x = 0, position_y = 0, position_z = -74.875\<rparr>,
          \<lparr>position_x = 0, position_y = 0, position_z = -94.875\<rparr>,
          \<lparr>position_x = 0, position_y = 0, position_z = -114.875\<rparr>,
          \<lparr>position_x = 0, position_y = 0, position_z = -134.875\<rparr>,
          \<lparr>position_x = 0, position_y = 0, position_z = 5.125\<rparr>,
          \<lparr>position_x = 0, position_y = 0, position_z = -14.875\<rparr>],
       obstacles :=
         [\<lparr>position_x = 1.5, position_y = 0.6, position_z = 18.65\<rparr>,
          \<lparr>position_x = 0, position_y = 0.6, position_z = -0.35\<rparr>]\<rparr>"
  by (simp add: animate_def updateGame_def crashWorld_def Let_def updateSegment_def
        checkCollisions_def hits_def distSq_def triggerGameOver_def
        baseForwardSpeed_def SEGMENT_LENGTH_def SEGMENT_COUNT_def camera_position_z_def
        playerRadius_def obstacleRadius_def LERP_FACTOR_def)


section \<open>Rounding to doubles\<close>

lemma rne_of_int: "rne (real_of_int n) = n"
  by (simp add: rne_def)

lemma rne_bounds: "\<lfloor>y\<rfloor> \<le> rne y" "rne y \<le> \<lfloor>y\<rfloor> + 1"
  by (simp_all add: rne_def Let_def)

lemma rne_error: "\<bar>real_of_int (rne y) - y\<bar> \<le> 1 / 2"
  unfolding rne_def Let_def by (auto simp: abs_le_iff)

lemma rne_mono:
  assumes "y \<le> y'"
  shows "rne y \<le> rne y'"
proof (cases "\<lfloor>y\<rfloor> = \<lfloor>y'\<rfloor>")
  case True
  then show ?thesis
    using assms unfolding rne_def Let_def by auto
next
  case False
  with assms have "\<lfloor>y\<rfloor> < \<lfloor>y'\<rfloor>"
    by (simp add: floor_mono order_neq_le_trans)
  then have "rne y \<le> \<lfloor>y'\<rfloor>"
    using rne_bounds(2)[of y] by linarith
  then show ?thesis
    using rne_bounds(1)[of y'] by linarith
qed

lemma rne_le_int: "y \<le> real_of_int n \<Longrightarrow> rne y \<le> n"
  using rne_mono[of y "real_of_int n"] by (simp add: rne_of_int)

lemma rne_ge_int: "real_of_int n \<le> y \<Longrightarrow> n \<le> rne y"
  using rne_mono[of "real_of_int n" y] by (simp add: rne_of_int)

lemma two_powr_int: "2 powr real_of_int n = (2::real) powi n"
  by (simp add: powr_real_of_int')

lemma binade:
  assumes "0 < x"
  shows "2 powi \<lfloor>log 2 x\<rfloor> \<le> x" "x < 2 powi (\<lfloor>log 2 x\<rfloor> + 1)"
proof -
  have "2 powr real_of_int \<lfloor>log 2 x\<rfloor> \<le> x
      \<and> x < 2 powr (real_of_int \<lfloor>log 2 x\<rfloor> + 1)"
    using floor_log_eq_powr_iff[of x 2 "\<lfloor>log 2 x\<rfloor>"] assms by simp
  moreover have "2 powr (real_of_int \<lfloor>log 2 x\<rfloor> + 1) = 2 powi (\<lfloor>log 2 x\<rfloor> + 1)"
    using two_powr_int[of "\<lfloor>log 2 x\<rfloor> + 1"] by simp
  ultimately show "2 powi \<lfloor>log 2 x\<rfloor> \<le> x" "x < 2 powi (\<lfloor>log 2 x\<rfloor> + 1)"
    by (simp_all add: two_powr_int)
qed

lemma binade_unique:
  assumes "2 powi e \<le> x" "x < 2 powi (e + 1)"
  shows "\<lfloor>log 2 x\<rfloor> = e"
proof -
  have "(0::real) < 2 powi e" by simp
  with assms(1) have pos: "0 < x" by linarith
  have "2 powr (real_of_int e + 1) = 2 powi (e + 1)"
    using two_powr_int[of "e + 1"] by simp
  with assms have "2 powr real_of_int e \<le> x \<and> x < 2 powr (real_of_int e + 1)"
    by (simp add: two_powr_int)
  then show ?thesis
    using floor_log_eq_powr_iff[of x 2 e] pos by simp
qed


lemma fl_pos_eval:
  assumes "2 powi e \<le> x" "x < 2 powi (e + 1)"
  shows "fl_pos x = real_of_int (rne (x / 2 powi (e - 52))) * 2 powi (e - 52)"
  using binade_unique[OF assms] by (simp add: fl_pos_def Let_def)

lemma scaled_bounds:
  fixes x :: real
  assumes "2 powi e \<le> x" "x < 2 powi (e + 1)"
  shows "2 ^ 52 \<le> x / 2 powi (e - 52)" "x / 2 powi (e - 52) < 2 ^ 53"
proof -
  have u: "(0::real) < 2 powi (e - 52)" by simp
  have a: "(2::real) powi e = 2 ^ 52 * 2 powi (e - 52)"
    using power_int_add[of "2::real" 52 "e - 52"] by simp
  have b: "(2::real) powi (e + 1) = 2 ^ 53 * 2 powi (e - 52)"
    using power_int_add[of "2::real" 53 "e - 52"] by (simp add: add.commute)
  show "2 ^ 52 \<le> x / 2 powi (e - 52)"
    using assms(1) u unfolding a by (simp add: pos_le_divide_eq)
  show "x / 2 powi (e - 52) < 2 ^ 53"
    using assms(2) u unfolding b by (simp add: pos_divide_less_eq)
qed

lemma fl_pos_bounds:
  assumes "2 powi e \<le> x" "x < 2 powi (e + 1)"
  shows "2 powi e \<le> fl_pos x" "fl_pos x \<le> 2 powi (e + 1)"
proof -
  let ?u = "(2::real) powi (e - 52)"
  have u: "0 < ?u" by simp
  have a: "(2::real) powi e = 2 ^ 52 * ?u"
    using power_int_add[of "2::real" 52 "e - 52"] by simp
  have b: "(2::real) powi (e + 1) = 2 ^ 53 * ?u"
    using power_int_add[of "2::real" 53 "e - 52"] by (simp add: add.commute)
  have "real_of_int (2 ^ 52) \<le> x / ?u" "x / ?u \<le> real_of_int (2 ^ 53)"
    using scaled_bounds[OF assms] by simp_all
  then have "2 ^ 52 \<le> rne (x / ?u)" "rne (x / ?u) \<le> 2 ^ 53"
    by (simp_all only: rne_ge_int rne_le_int)
  then have "(2::real) ^ 52 \<le> real_of_int (rne (x / ?u))"
    "real_of_int (rne (x / ?u)) \<le> 2 ^ 53"
    by (metis of_int_le_iff of_int_numeral of_int_power)+
  then show "2 powi e \<le> fl_pos x" "fl_pos x \<le> 2 powi (e + 1)"
    unfolding a b fl_pos_eval[OF assms] using u by (simp_all add: mult_right_mono)
qed

lemma fl_pos_positive: "0 < x \<Longrightarrow> 0 < fl_pos x"
proof -
  assume "0 < x"
  from fl_pos_bounds(1)[OF binade[OF this]] have "2 powi \<lfloor>log 2 x\<rfloor> \<le> fl_pos x" .
  moreover have "(0::real) < 2 powi \<lfloor>log 2 x\<rfloor>" by simp
  ultimately show ?thesis by linarith
qed

lemma fl_pos_mono:
  assumes "0 < a" "a \<le> b"
  shows "fl_pos a \<le> fl_pos b"
proof -
  define ea where "ea = \<lfloor>log 2 a\<rfloor>"
  define eb where "eb = \<lfloor>log 2 b\<rfloor>"
  have b: "0 < b" using assms by simp
  have ba: "2 powi ea \<le> a" "a < 2 powi (ea + 1)"
    using binade[OF assms(1)] by (simp_all add: ea_def)
  have bb: "2 powi eb \<le> b" "b < 2 powi (eb + 1)"
    using binade[OF b] by (simp_all add: eb_def)
  have "ea \<le> eb"
    unfolding ea_def eb_def using assms by (intro floor_mono) simp
  then consider "ea = eb" | "ea + 1 \<le> eb" by linarith
  then show ?thesis
  proof cases
    case 1
    have "rne (a / 2 powi (ea - 52)) \<le> rne (b / 2 powi (ea - 52))"
      using assms(2) by (intro rne_mono divide_right_mono) simp_all
    then show ?thesis
      unfolding fl_pos_eval[OF ba] fl_pos_eval[OF bb[unfolded 1[symmetric]]]
      by (simp add: mult_right_mono)
  next
    case 2
    have "fl_pos a \<le> 2 powi (ea + 1)" by (rule fl_pos_bounds(2)[OF ba])
    also have "\<dots> \<le> 2 powi eb" using 2 by (intro power_int_increasing) simp_all
    also have "\<dots> \<le> fl_pos b" by (rule fl_pos_bounds(1)[OF bb])
    finally show ?thesis .
  qed
qed

lemma fl_zero: "fl 0 = 0"
  by (simp add: fl_def)

lemma fl_minus: "fl (- x) = - fl x"
  by (simp add: fl_def)

lemma fl_positive: "0 < x \<Longrightarrow> 0 < fl x"
  by (simp add: fl_def fl_pos_positive)

lemma fl_negative: "x < 0 \<Longrightarrow> fl x < 0"
  using fl_positive[of "- x"] by (simp add: fl_minus)

lemma fl_mono:
  assumes "a \<le> b"
  shows "fl a \<le> fl b"
proof -
  consider "0 < a" | "a \<le> 0" "0 \<le> b" | "b < 0" using assms by linarith
  then show ?thesis
  proof cases
    case 1
    with assms show ?thesis by (simp add: fl_def fl_pos_mono)
  next
    case 2
    have "fl a \<le> 0" using 2(1) fl_negative[of a] by (cases "a = 0") (simp_all add: fl_zero)
    moreover have "0 \<le> fl b" using 2(2) fl_positive[of b] by (cases "b = 0") (simp_all add: fl_zero)
    ultimately show ?thesis by simp
  next
    case 3
    with assms have "fl_pos (- b) \<le> fl_pos (- a)" by (intro fl_pos_mono) simp_all
    with 3 assms show ?thesis by (simp add: fl_def)
  qed
qed

lemma fl_pos_grid:
  assumes "2 ^ 52 \<le> n" "n < 2 ^ 53"
  shows "fl_pos (real_of_int n * 2 powi k) = real_of_int n * 2 powi k"
proof -
  have u: "(0::real) < 2 powi k" by simp
  have a: "(2::real) powi (k + 52) = 2 ^ 52 * 2 powi k"
    using power_int_add[of "2::real" 52 k] by (simp add: add.commute)
  have b: "(2::real) powi (k + 52 + 1) = 2 ^ 53 * 2 powi k"
    using power_int_add[of "2::real" 53 k] by (simp add: add.commute)
  have n: "(2::real) ^ 52 \<le> real_of_int n" "real_of_int n < 2 ^ 53"
    using assms by (metis of_int_le_iff of_int_numeral of_int_power,
        metis of_int_less_iff of_int_numeral of_int_power)
  have lo: "2 powi (k + 52) \<le> real_of_int n * 2 powi k"
    unfolding a using n(1) u by (simp add: mult_right_mono)
  have hi: "real_of_int n * 2 powi k < 2 powi (k + 52 + 1)"
    unfolding b using n(2) u by (simp add: mult_strict_right_mono)
  show ?thesis
    unfolding fl_pos_eval[OF lo hi] by (simp add: rne_of_int)
qed

lemma fl_pos_idem:
  assumes "0 < x"
  shows "fl_pos (fl_pos x) = fl_pos x"
proof -
  define e where "e = \<lfloor>log 2 x\<rfloor>"
  define n where "n = rne (x / 2 powi (e - 52))"
  have bx: "2 powi e \<le> x" "x < 2 powi (e + 1)"
    using binade[OF assms] by (simp_all add: e_def)
  have val: "fl_pos x = real_of_int n * 2 powi (e - 52)"
    by (simp add: fl_pos_eval[OF bx] n_def)
  have "real_of_int (2 ^ 52) \<le> x / 2 powi (e - 52)"
    "x / 2 powi (e - 52) \<le> real_of_int (2 ^ 53)"
    using scaled_bounds[OF bx] by simp_all
  then have n: "2 ^ 52 \<le> n" "n \<le> 2 ^ 53"
    by (simp_all only: n_def rne_ge_int rne_le_int)
  show ?thesis
  proof (cases "n < 2 ^ 53")
    case True
    with n(1) show ?thesis unfolding val by (rule fl_pos_grid)
  next
    case False
    with n(2) have top: "n = 2 ^ 53" by simp
    have "real_of_int n * 2 powi (e - 52) = real_of_int (2 ^ 52) * 2 powi (e - 51)"
      using power_int_add[of "2::real" 1 "e - 52"] by (simp add: top)
    moreover have "fl_pos (real_of_int (2 ^ 52) * 2 powi (e - 51))
        = real_of_int (2 ^ 52) * 2 powi (e - 51)"
      by (rule fl_pos_grid) simp_all
    ultimately show ?thesis unfolding val by simp
  qed
qed

lemma fl_idem: "fl (fl x) = fl x"
proof -
  consider "x = 0" | "0 < x" | "x < 0" by linarith
  then show ?thesis
  proof cases
    case 1
    then show ?thesis by (simp add: fl_zero)
  next
    case 2
    then show ?thesis
      using fl_pos_positive[of x] by (simp add: fl_def fl_pos_idem)
  next
    case 3
    then show ?thesis
      using fl_pos_positive[of "- x"] by (simp add: fl_def fl_pos_idem)
  qed
qed

lemma fl_of_pos: "0 < y \<Longrightarrow> fl y = fl_pos y"
  by (simp add: fl_def)

lemma fl_of_neg: "y < 0 \<Longrightarrow> fl y = - fl_pos (- y)"
  by (simp add: fl_def)




lemma fl_pos_error:
  assumes "2 powi e \<le> x" "x < 2 powi (e + 1)"
  shows "\<bar>fl_pos x - x\<bar> \<le> 2 powi (e - 53)"
proof -
  let ?u = "(2::real) powi (e - 52)"
  have u: "0 < ?u" by simp
  have half: "(2::real) powi (e - 53) = ?u / 2"
    using power_int_add[of "2::real" "- 1" "e - 52"] by (simp add: power_int_minus)
  have "fl_pos x - x = (real_of_int (rne (x / ?u)) - x / ?u) * ?u"
    unfolding fl_pos_eval[OF assms] using u by (simp add: algebra_simps)
  then have "\<bar>fl_pos x - x\<bar> = \<bar>real_of_int (rne (x / ?u)) - x / ?u\<bar> * ?u"
    using u by (simp add: abs_mult)
  also have "\<dots> \<le> (1 / 2) * ?u"
    using rne_error[of "x / ?u"] u by (intro mult_right_mono) simp_all
  finally show ?thesis by (simp add: half)
qed

lemma fl_error:
  assumes "\<bar>x\<bar> \<le> 2 powi k"
  shows "\<bar>fl x - x\<bar> \<le> 2 powi (k - 53)"
proof (cases "x = 0")
  case True
  then show ?thesis by (simp add: fl_zero)
next
  case False
  define y where "y = \<bar>x\<bar>"
  define e where "e = \<lfloor>log 2 y\<rfloor>"
  have y: "0 < y" using False by (simp add: y_def)
  have bnd: "2 powi e \<le> y" "y < 2 powi (e + 1)"
    using binade[OF y] by (simp_all add: e_def)
  from bnd(1) assms have "(2::real) powi e \<le> 2 powi k" by (simp add: y_def)
  then have "e \<le> k"
    using power_int_strict_increasing[of k e "2::real"] by (cases "e \<le> k") simp_all
  then have "(2::real) powi (e - 53) \<le> 2 powi (k - 53)"
    by (intro power_int_increasing) simp_all
  with fl_pos_error[OF bnd] have "\<bar>fl_pos y - y\<bar> \<le> 2 powi (k - 53)" by linarith
  moreover have "\<bar>fl x - x\<bar> = \<bar>fl_pos y - y\<bar>"
    using False by (auto simp: fl_def y_def)
  ultimately show ?thesis by simp
qed

text \<open>
  To evaluate \<open>fl\<close> at a concrete number, name its binade: for
  \<open>2\<^sup>e \<le> x < 2\<^sup>e\<^sup>+\<^sup>1\<close> the result is \<open>x / 2\<^sup>e\<^sup>-\<^sup>5\<^sup>2\<close> rounded to a whole
  number, times \<open>2\<^sup>e\<^sup>-\<^sup>5\<^sup>2\<close>.
\<close>

lemma fl_eval:
  assumes "2 powi e \<le> x" "x < 2 powi (e + 1)"
  shows "fl x = real_of_int (rne (x / 2 powi (e - 52))) * 2 powi (e - 52)"
proof -
  have "(0::real) < 2 powi e" by simp
  with assms(1) have "0 < x" by linarith
  then show ?thesis by (simp add: fl_def fl_pos_eval[OF assms])
qed

lemma fl_pos_int_scaled:
  assumes "0 < m" "m < 2 ^ 53"
  shows "fl_pos (real_of_int m * 2 powi k) = real_of_int m * 2 powi k"
proof -
  define x where "x = real_of_int m * 2 powi k"
  define e where "e = \<lfloor>log 2 x\<rfloor>"
  have u: "(0::real) < 2 powi k" by simp
  have x: "0 < x" using assms(1) u by (simp add: x_def)
  have bx: "2 powi e \<le> x" "x < 2 powi (e + 1)"
    using binade[OF x] by (simp_all add: e_def)
  have "real_of_int m < real_of_int (2 ^ 53)" using assms(2) by (simp only: of_int_less_iff)
  then have "x < 2 ^ 53 * 2 powi k"
    unfolding x_def using u by (simp add: mult_strict_right_mono)
  also have "\<dots> = 2 powi (k + 53)"
    using power_int_add[of "2::real" k 53] by simp
  finally have "(2::real) powi e < 2 powi (k + 53)" using bx(1) by linarith
  then have "e < k + 53"
    using power_int_increasing[of "k + 53" e "2::real"] by (cases "e < k + 53") simp_all
  then have "k = e - 52 + int (nat (k - (e - 52)))" by simp
  then obtain j where j: "k = e - 52 + int j" ..
  have split: "(2::real) powi k = 2 ^ j * 2 powi (e - 52)"
    using power_int_add[of "2::real" "int j" "e - 52"] by (simp add: j add.commute)
  have "x / 2 powi (e - 52) = real_of_int (m * 2 ^ j)"
    by (simp add: x_def split)
  then have "fl_pos x = real_of_int (m * 2 ^ j) * 2 powi (e - 52)"
    by (simp only: fl_pos_eval[OF bx] rne_of_int)
  also have "\<dots> = x" by (simp add: x_def split)
  finally show ?thesis by (simp only: x_def)
qed

lemma fl_int_scaled:
  assumes "\<bar>m\<bar> < 2 ^ 53"
  shows "fl (real_of_int m * 2 powi k) = real_of_int m * 2 powi k"
proof -
  have u: "(0::real) < 2 powi k" by simp
  consider "m = 0" | "0 < m" | "m < 0" by linarith
  then show ?thesis
  proof cases
    case 1
    then show ?thesis by (simp add: fl_zero)
  next
    case 2
    then have "0 < real_of_int m * 2 powi k" using u by simp
    from fl_of_pos[OF this] fl_pos_int_scaled[of m k] 2 assms show ?thesis by simp
  next
    case 3
    then have neg: "real_of_int m * 2 powi k < 0" using u by (simp add: mult_neg_pos)
    have "fl_pos (real_of_int (- m) * 2 powi k) = real_of_int (- m) * 2 powi k"
      using 3 assms by (intro fl_pos_int_scaled) simp_all
    then show ?thesis by (simp add: fl_of_neg[OF neg])
  qed
qed

lemma fl_int: "\<bar>m\<bar> < 2 ^ 53 \<Longrightarrow> fl (real_of_int m) = real_of_int m"
  using fl_int_scaled[of m 0] by simp

lemma fl_upper: "x \<le> y \<Longrightarrow> fl y = y \<Longrightarrow> fl x \<le> y"
  using fl_mono[of x y] by simp

lemma fl_lower: "y \<le> x \<Longrightarrow> fl y = y \<Longrightarrow> y \<le> fl x"
  using fl_mono[of y x] by simp

lemma fl_nonneg: "0 \<le> x \<Longrightarrow> 0 \<le> fl x"
  using fl_mono[of 0 x] by (simp add: fl_zero)


lemma fl_consts:
  "fl 10 = 10" "fl 13 = 13" "fl 14 = 14" "fl 160 = 160" "fl (- 140) = - 140" "fl 1 = 1"
  "fl (3 / 2) = 3 / 2" "fl (1 / 2) = 1 / 2"
  using fl_int[of 10] fl_int[of 13] fl_int[of 14] fl_int[of 160] fl_int[of "- 140"] fl_int[of 1]
    fl_int_scaled[of 3 "- 1"] fl_int_scaled[of 1 "- 1"]
  by (simp_all add: power_int_minus)

lemma fl_max_delta: "fl (1 / 20) = 3602879701896397 / 72057594037927936"
  by (subst fl_eval[of "-5"]) (simp_all add: rne_def Let_def power_int_minus)

lemma fl_ring_consts:
  "fl (SEGMENT_LENGTH / 2) = 10" "fl (camera_position_z + 5) = 13"
  "fl (SEGMENT_LENGTH * real SEGMENT_COUNT) = 160"
  "fl 24 = 24" "fl 152 = 152" "fl 1024 = 1024" "fl 2048 = 2048" "fl 128 = 128"
  using fl_int[of 24] fl_int[of 152] fl_int[of 1024] fl_int[of 2048] fl_int[of 128]
  by (simp_all add: SEGMENT_LENGTH_def SEGMENT_COUNT_def camera_position_z_def fl_consts)

lemma fl_close:
  assumes "\<bar>v\<bar> \<le> 1048576"
  shows "\<bar>fl v - v\<bar> \<le> 1 / 8000000000"
proof -
  have "\<bar>fl v - v\<bar> \<le> 2 powi (20 - 53)"
    using assms by (intro fl_error) simp
  also have "\<dots> \<le> 1 / 8000000000" by (simp add: power_int_minus)
  finally show ?thesis .
qed

lemma abs_mult_close:
  fixes a b A B :: real
  assumes "\<bar>a - A\<bar> \<le> \<alpha>" "\<bar>b - B\<bar> \<le> \<beta>" "\<bar>b\<bar> \<le> M" "\<bar>A\<bar> \<le> N"
  shows "\<bar>a * b - A * B\<bar> \<le> \<alpha> * M + N * \<beta>"
proof -
  have "a * b - A * B = (a - A) * b + A * (b - B)" by (simp add: algebra_simps)
  then have "\<bar>a * b - A * B\<bar> \<le> \<bar>a - A\<bar> * \<bar>b\<bar> + \<bar>A\<bar> * \<bar>b - B\<bar>"
    by (metis abs_mult abs_triangle_ineq)
  also have "\<dots> \<le> \<alpha> * M + N * \<beta>"
    using assms by (intro add_mono mult_mono) (simp_all add: order_trans[OF abs_ge_zero])
  finally show ?thesis .
qed


section \<open>The segment ring\<close>

lemma updateSegment_z:
  "position_z (fst (updateSegment rnd delta seg w))
     = recycledZ (forwardSpeed w * delta) (position_z seg)"
  by (simp add: updateSegment_def recycledZ_def Let_def Math_random_def)

lemma forEachSegment_z:
  "map position_z (fst (forEachSegment rnd delta segs w))
     = map (recycledZ (forwardSpeed w * delta)) (map position_z segs)"
  by (induction segs arbitrary: w)
     (simp_all add: forEachSegment_Cons_fst updateSegment_z updateSegment_frame
        del: forEachSegment.simps(2))

lemma updateGame_slideSegments:
  "map position_z (slideSegments (updateGame rnd delta w))
     = map (recycledZ (forwardSpeed (updateGame rnd delta w) * delta))
         (map position_z (slideSegments w))"
proof -
  have "slideSegments (beforeCollisionCheck rnd delta w)
      = fst (forEachSegment rnd delta (slideSegments w)
          (w\<lparr>elapsedSinceStart := elapsedSinceStart w + delta,
             forwardSpeed := baseForwardSpeed + (elapsedSinceStart w + delta) * 0.5,
             score := score w + delta * 10,
             player := map_option
                   (\<lambda>p. p\<lparr>position_x := position_x p
                          + (targetLaneX w - position_x p) * min (LERP_FACTOR * delta) 1\<rparr>)
                   (player w)\<rparr>))"
    by (simp add: beforeCollisionCheck_def Let_def case_prod_beta)
  then show ?thesis
    by (simp add: updateGame_checkCollisions checkCollisions_frame forEachSegment_z
          beforeCollisionCheck_fields)
qed

lemma multiple_of_ring_of_int: "multiple_of_ring (RING_LENGTH * real_of_int k)"
  by (simp add: multiple_of_ring_def RING_LENGTH_def SEGMENT_LENGTH_def SEGMENT_COUNT_def)

lemma ring_inv_initial:
  "ring_inv (map position_z (map createSlideSegment [0..<SEGMENT_COUNT]))"
  unfolding ring_inv_def
proof (intro exI[of _ 0] exI[of _ "map (\<lambda>i. - int i) [0..<SEGMENT_COUNT]"] conjI allI impI)
  show "map position_z (map createSlideSegment [0..<SEGMENT_COUNT])
      = map (\<lambda>n. 0 + SEGMENT_LENGTH * real_of_int n) (map (\<lambda>i. - int i) [0..<SEGMENT_COUNT])"
    by (simp add: createSlideSegment_def)
qed (simp_all add: SEGMENT_COUNT_def)

lemma ring_inv_recycled:
  assumes "ring_inv zs"
  shows "ring_inv (map (recycledZ d) zs)"
proof -
  from assms obtain b ns where len: "length ns = SEGMENT_COUNT"
    and zs: "zs = map (\<lambda>n. b + SEGMENT_LENGTH * real_of_int n) ns"
    and res: "\<forall>i < SEGMENT_COUNT. (ns ! i + int i) mod int SEGMENT_COUNT = 0"
    and win: "\<forall>i < SEGMENT_COUNT. \<forall>j < SEGMENT_COUNT. ns ! i - ns ! j < int SEGMENT_COUNT"
    unfolding ring_inv_def by blast
  define past where "past n \<longleftrightarrow>
      b + SEGMENT_LENGTH * real_of_int n + d - SEGMENT_LENGTH / 2 > camera_position_z + 5" for n
  define g where "g n = (if past n then n - int SEGMENT_COUNT else n)" for n
  have step: "recycledZ d (b + SEGMENT_LENGTH * real_of_int n)
      = (b + d) + SEGMENT_LENGTH * real_of_int (g n)" for n
    by (simp add: recycledZ_def g_def past_def Let_def algebra_simps)
  have order: "m < n" if "past n" "\<not> past m" for m n
  proof -
    from that have "SEGMENT_LENGTH * real_of_int m < SEGMENT_LENGTH * real_of_int n"
      by (simp add: past_def)
    then show ?thesis by (simp add: SEGMENT_LENGTH_def)
  qed
  show ?thesis
    unfolding ring_inv_def
  proof (intro exI[of _ "b + d"] exI[of _ "map g ns"] conjI allI impI)
    show "length (map g ns) = SEGMENT_COUNT" using len by simp
    show "map (recycledZ d) zs
        = map (\<lambda>n. b + d + SEGMENT_LENGTH * real_of_int n) (map g ns)"
      by (simp add: zs step)
  next
    fix i assume i: "i < SEGMENT_COUNT"
    with res have "(ns ! i + int i) mod int SEGMENT_COUNT = 0" by blast
    moreover have "(ns ! i - int SEGMENT_COUNT + int i) mod int SEGMENT_COUNT
        = (ns ! i + int i) mod int SEGMENT_COUNT"
      by (metis add_diff_eq diff_add_eq minus_mod_self2)
    ultimately show "(map g ns ! i + int i) mod int SEGMENT_COUNT = 0"
      using i len by (simp add: g_def)
  next
    fix i j assume i: "i < SEGMENT_COUNT" and j: "j < SEGMENT_COUNT"
    from win i j have a: "ns ! i - ns ! j < int SEGMENT_COUNT" by blast
    have "g (ns ! i) - g (ns ! j) < int SEGMENT_COUNT"
    proof (cases "past (ns ! i)"; cases "past (ns ! j)")
      assume "\<not> past (ns ! i)" "past (ns ! j)"
      from order[OF this(2) this(1)] show ?thesis
        using \<open>\<not> past (ns ! i)\<close> \<open>past (ns ! j)\<close> by (simp add: g_def)
    qed (use a in \<open>simp_all add: g_def\<close>)
    then show "map g ns ! i - map g ns ! j < int SEGMENT_COUNT"
      using i j len by simp
  qed
qed

lemma upto_eight:
  "[m..m + 7] = [m, m + 1, m + 2, m + 3, m + 4, m + 5, m + 6, m + 7]"
  by (simp add: upto_rec1)

lemma ring_inv_congruent:
  assumes "ring_inv (map position_z segs)"
  shows "ring_congruent segs"
proof -
  from assms obtain b ns where len: "length ns = SEGMENT_COUNT"
    and zs: "map position_z segs = map (\<lambda>n. b + SEGMENT_LENGTH * real_of_int n) ns"
    and res: "\<forall>i < SEGMENT_COUNT. (ns ! i + int i) mod int SEGMENT_COUNT = 0"
    unfolding ring_inv_def by blast
  from zs len have len': "length segs = SEGMENT_COUNT"
    by (metis length_map)
  have z: "position_z (segs ! i) = b + SEGMENT_LENGTH * real_of_int (ns ! i)"
    if "i < SEGMENT_COUNT" for i
    using that len len' arg_cong[OF zs, of "\<lambda>l. l ! i"] by simp
  have "multiple_of_ring
          ((position_z (segs ! i) + real i * SEGMENT_LENGTH)
           - (position_z (segs ! j) + real j * SEGMENT_LENGTH))"
    if i: "i < SEGMENT_COUNT" and j: "j < SEGMENT_COUNT" for i j
  proof -
    from res i obtain ki where ki: "ns ! i + int i = int SEGMENT_COUNT * ki"
      by (metis mod_eq_0_iff_dvd dvdE)
    from res j obtain kj where kj: "ns ! j + int j = int SEGMENT_COUNT * kj"
      by (metis mod_eq_0_iff_dvd dvdE)
    have "(position_z (segs ! i) + real i * SEGMENT_LENGTH)
           - (position_z (segs ! j) + real j * SEGMENT_LENGTH)
        = SEGMENT_LENGTH * (real_of_int (ns ! i + int i) - real_of_int (ns ! j + int j))"
      by (simp add: z[OF i] z[OF j] algebra_simps)
    also have "\<dots> = RING_LENGTH * real_of_int (ki - kj)"
      unfolding ki kj by (simp add: RING_LENGTH_def algebra_simps)
    finally show ?thesis by (simp only: multiple_of_ring_of_int)
  qed
  then show ?thesis
    by (simp add: ring_congruent_def len')
qed

lemma ring_inv_tiles:
  assumes "ring_inv (map position_z segs)"
  shows "ring_tiles segs"
proof -
  from assms obtain b ns where len: "length ns = SEGMENT_COUNT"
    and zs: "map position_z segs = map (\<lambda>n. b + SEGMENT_LENGTH * real_of_int n) ns"
    and res: "\<forall>i < SEGMENT_COUNT. (ns ! i + int i) mod int SEGMENT_COUNT = 0"
    and win: "\<forall>i < SEGMENT_COUNT. \<forall>j < SEGMENT_COUNT. ns ! i - ns ! j < int SEGMENT_COUNT"
    unfolding ring_inv_def by blast
  from zs len have len': "length segs = SEGMENT_COUNT"
    by (metis length_map)
  define f where "f = (\<lambda>n. b + SEGMENT_LENGTH * real_of_int n)"
  have "ns ! i \<noteq> ns ! j" if "i < length ns" "j < length ns" "i \<noteq> j" for i j
  proof
    assume eq: "ns ! i = ns ! j"
    have arith: "a = c" if "(n + a) mod 8 = 0" "(n + c) mod 8 = 0" "0 \<le> a" "a < 8" "0 \<le> c" "c < 8"
      for n a c :: int
      using that by presburger
    from res that len have "(ns ! i + int i) mod 8 = 0" "(ns ! j + int j) mod 8 = 0"
      by (simp_all add: SEGMENT_COUNT_def)
    moreover from that len have "int i < 8" "int j < 8"
      by (simp_all add: SEGMENT_COUNT_def)
    ultimately have "int i = int j"
      using eq arith[of "ns ! j" "int i" "int j"] by simp
    with that show False by simp
  qed
  then have dist: "distinct ns"
    by (simp add: distinct_conv_nth)
  from len have ne: "set ns \<noteq> {}" by (auto simp: SEGMENT_COUNT_def)
  define m where "m = Min (set ns)"
  have m_in: "m \<in> set ns" unfolding m_def using ne by (intro Min_in) simp_all
  have sub: "set ns \<subseteq> {m..m + 7}"
  proof
    fix n assume n: "n \<in> set ns"
    then have lo: "m \<le> n" unfolding m_def by simp
    from n obtain i where i: "i < length ns" "ns ! i = n"
      unfolding in_set_conv_nth by blast
    from m_in obtain j where j: "j < length ns" "ns ! j = m"
      unfolding in_set_conv_nth by blast
    from i j len have "i < SEGMENT_COUNT" "j < SEGMENT_COUNT" by simp_all
    with win have "ns ! i - ns ! j < int SEGMENT_COUNT" by blast
    with i j have "n - m < 8" by (simp add: SEGMENT_COUNT_def)
    with lo show "n \<in> {m..m + 7}" by simp
  qed
  have "card (set ns) = 8"
    using dist len by (simp add: distinct_card SEGMENT_COUNT_def)
  then have "set ns = {m..m + 7}"
    using sub by (intro card_subset_eq) simp_all
  then have "mset ns = mset [m..m + 7]"
    using dist by (simp add: set_eq_iff_mset_eq_distinct[symmetric])
  then have "mset (map f [m..m + 7]) = mset (map f ns)"
    by simp
  moreover have "sorted (map f [m..m + 7])"
    by (simp add: upto_eight f_def SEGMENT_LENGTH_def)
  ultimately have "sort (map f ns) = map f [m..m + 7]"
    by (rule properties_for_sort)
  then have "sort (map position_z segs) = map f [m..m + 7]"
    by (simp add: zs f_def)
  moreover have "spaced (map f [m..m + 7])"
    by (simp add: upto_eight f_def SEGMENT_LENGTH_def)
  ultimately show ?thesis
    by (simp add: ring_tiles_def len')
qed

lemma ring_inv_dispatch:
  assumes "ring_inv (map position_z (slideSegments v))"
  shows "ring_inv (map position_z (slideSegments (dispatch rnd e v)))"
proof (cases e)
  case (Frame time)
  show ?thesis
  proof (cases "gameState v = PLAYING")
    case True
    then have "map position_z (slideSegments (dispatch rnd e v))
        = map (recycledZ (forwardSpeed (updateGame rnd (min ((time - lastTime v) / 1000) 0.05)
                  (v\<lparr>lastTime := time\<rparr>)) * min ((time - lastTime v) / 1000) 0.05))
            (map position_z (slideSegments v))"
      using updateGame_slideSegments[of rnd "min ((time - lastTime v) / 1000) 0.05"
          "v\<lparr>lastTime := time\<rparr>"]
      by (simp add: Frame animate_def Let_def)
    with assms show ?thesis by (simp only: ring_inv_recycled)
  next
    case False
    with assms show ?thesis by (simp add: Frame animate_def Let_def)
  qed
next
  case OverlayTap
  with assms show ?thesis
    by (simp add: handleOverlayTap_def startGame_fields ring_inv_initial[unfolded map_map])
qed (use assms in \<open>simp_all add: pointer_frame\<close>)

lemma ring_inv_reachable:
  "ring_inv (map position_z (slideSegments (run rnd events (init rnd))))"
  by (rule run_invariant_any[where I = "\<lambda>v. ring_inv (map position_z (slideSegments v))"])
     (simp_all add: init_fields ring_inv_initial[unfolded map_map] ring_inv_dispatch)

text \<open>
  The two predicates accept a tiling ring and reject a ring with a gap or with a segment
  off the pitch.
\<close>

lemma ring_predicates_examples:
  "\<not> ring_tiles (map createSlideSegment [0, 1, 2, 3, 4, 5, 6, 8])
   \<and> \<not> ring_congruent
        (map (\<lambda>z. \<lparr>position_x = 0, position_y = 0, position_z = z\<rparr>)
           [0, -20, -40, -60, -80, -100, -120, -145])
   \<and> ring_tiles (slideSegments crashWorld)
   \<and> ring_tiles (slideSegments (animate constant_random 10000 crashWorld))"
proof (intro conjI)
  show "\<not> ring_tiles (map createSlideSegment [0, 1, 2, 3, 4, 5, 6, 8])"
    by (simp add: ring_tiles_def createSlideSegment_def SEGMENT_LENGTH_def SEGMENT_COUNT_def
          sort_key_def)
  show "\<not> ring_congruent
        (map (\<lambda>z. \<lparr>position_x = 0, position_y = 0, position_z = z\<rparr>)
           [0, -20, -40, -60, -80, -100, -120, -145])"
  proof
    assume a: "ring_congruent
        (map (\<lambda>z. \<lparr>position_x = 0, position_y = 0, position_z = z\<rparr>)
           [0, -20, -40, -60, -80, -100, -120, -145])"
    from a[unfolded ring_congruent_def, rule_format, of 0 7] show False
      by (simp add: multiple_of_ring_def RING_LENGTH_def SEGMENT_LENGTH_def SEGMENT_COUNT_def)
  qed
  show "ring_tiles (slideSegments crashWorld)"
    by (simp add: ring_tiles_def crashWorld_def SEGMENT_LENGTH_def SEGMENT_COUNT_def
          sort_key_def)
  show "ring_tiles (slideSegments (animate constant_random 10000 crashWorld))"
    by (simp add: crashWorld_tick)
       (simp add: ring_tiles_def crashWorld_def SEGMENT_LENGTH_def SEGMENT_COUNT_def
          sort_key_def)
qed

text \<open>
  In exact arithmetic: for every tick executed while PLAYING, with any sequence of delta
  times, the forward-axis positions of the 8 track segments remain pairwise spaced by
  exactly \<open>SEGMENT_LENGTH\<close> modulo the ring length, and the set of positions has no
  gap and no overlap: in every world the game reaches from its initial world, the ring is
  congruent and tiles. A tick moves every segment by \<open>forwardSpeed * delta\<close> and
  translates a segment that has passed the recycle threshold backward by exactly
  \<open>SEGMENT_LENGTH * SEGMENT_COUNT\<close>.
\<close>

lemma segment_ring_exact:
  "ring_congruent (slideSegments (run rnd events (init rnd)))
   \<and> ring_tiles (slideSegments (run rnd events (init rnd)))
   \<and> map position_z (slideSegments (updateGame rnd delta w))
       = map (\<lambda>z. let z' = z + forwardSpeed (updateGame rnd delta w) * delta
                in if z' - SEGMENT_LENGTH / 2 > camera_position_z + 5
                   then z' - SEGMENT_LENGTH * real SEGMENT_COUNT else z')
           (map position_z (slideSegments w))"
proof (intro conjI)
  show "ring_congruent (slideSegments (run rnd events (init rnd)))"
    by (rule ring_inv_congruent) (rule ring_inv_reachable)
  show "ring_tiles (slideSegments (run rnd events (init rnd)))"
    by (rule ring_inv_tiles) (rule ring_inv_reachable)
  show "map position_z (slideSegments (updateGame rnd delta w))
       = map (\<lambda>z. let z' = z + forwardSpeed (updateGame rnd delta w) * delta
                in if z' - SEGMENT_LENGTH / 2 > camera_position_z + 5
                   then z' - SEGMENT_LENGTH * real SEGMENT_COUNT else z')
           (map position_z (slideSegments w))"
    using updateGame_slideSegments[of rnd delta w]
    by (simp add: recycledZ_def[abs_def])
qed


subsection \<open>The ring in doubles\<close>

text \<open>
  The game adds \<open>forwardSpeed * delta\<close> to every position in doubles, and each
  addition rounds on the grid of its own binade: a segment near -140 moves on a grid
  that is 1024 times coarser than the grid of a segment near 0.1. The spacing is then
  exact only up to rounding, and the error of a position grows by at most
  \<open>2\<^sup>-\<^sup>4\<^sup>4\<close> per tick: one rounding of the sum and one of the difference with the
  ring length, each of a number below 256.
\<close>

lemma fl_error_256:
  assumes "\<bar>x\<bar> \<le> 256"
  shows "\<bar>fl x - x\<bar> \<le> (1 / 2 ^ 44) / 2"
  using fl_error[of x 8] assms by (simp add: power_int_minus)

text \<open>One segment in one tick that moves the world by \<open>d\<close>.\<close>

lemma recycledZ_fl_point:
  assumes z: "fl z = z" "- 140 \<le> z" "z \<le> 24" and y: "\<bar>z - y\<bar> \<le> err"
    and d: "d = fl (speed * delta)" "0 \<le> d" "d \<le> 128"
  defines "z1 \<equiv> fl (z + d)"
  defines "z' \<equiv> recycledZ_fl speed delta z"
  shows "z' = (if 13 < fl (z1 - 10) then fl (z1 - 160) else z1)"
    and "fl z' = z'" and "- 140 \<le> z'" and "z' \<le> 24"
    and "\<bar>z' - (y + d - (if 13 < fl (z1 - 10) then 160 else 0))\<bar> \<le> err + 1 / 2 ^ 44"
proof -
  show eq: "z' = (if 13 < fl (z1 - 10) then fl (z1 - 160) else z1)"
    by (simp add: z'_def z1_def recycledZ_fl_def Let_def fl_ring_consts d(1))
  define eps :: real where "eps = 1 / 2 ^ 44"
  have e1: "\<bar>z1 - (z + d)\<bar> \<le> eps / 2"
    unfolding z1_def eps_def using z(2,3) d(2,3) by (intro fl_error_256) simp
  have lo1: "z \<le> z1"
    unfolding z1_def using d(2) z(1) by (intro fl_lower) simp_all
  have hi1: "z1 \<le> 152"
    unfolding z1_def using z(3) d(3) by (intro fl_upper) (simp_all add: fl_ring_consts)
  show "fl z' = z'" unfolding eq z1_def by (simp add: fl_idem)
  show "- 140 \<le> z'" "z' \<le> 24"
    "\<bar>z' - (y + d - (if 13 < fl (z1 - 10) then 160 else 0))\<bar> \<le> err + 1 / 2 ^ 44"
  proof -
    have "- 140 \<le> z' \<and> z' \<le> 24
        \<and> \<bar>z' - (y + d - (if 13 < fl (z1 - 10) then 160 else 0))\<bar> \<le> err + eps"
    proof (cases "13 < fl (z1 - 10)")
      case True
      have far: "23 \<le> z1"
      proof (rule ccontr)
        assume "\<not> 23 \<le> z1"
        then have "fl (z1 - 10) \<le> 13" by (intro fl_upper) (simp_all add: fl_consts)
        with True show False by simp
      qed
      have e2: "\<bar>fl (z1 - 160) - (z1 - 160)\<bar> \<le> eps / 2"
        unfolding eps_def using far hi1 by (intro fl_error_256) simp
      have "- 140 \<le> fl (z1 - 160)"
        using far by (intro fl_lower) (simp_all add: fl_consts)
      moreover have "fl (z1 - 160) \<le> 24"
        using hi1 by (intro fl_upper) (simp_all add: fl_ring_consts)
      moreover have "\<bar>fl (z1 - 160) - (y + d - 160)\<bar> \<le> err + eps"
        using e1 e2 y by arith
      ultimately show ?thesis using True by (simp add: eq)
    next
      case False
      have near: "z1 \<le> 24"
      proof (rule ccontr)
        assume "\<not> z1 \<le> 24"
        then have "14 \<le> fl (z1 - 10)" by (intro fl_lower) (simp_all add: fl_consts)
        with False show False by simp
      qed
      have "0 \<le> eps" by (simp add: eps_def)
      then have "\<bar>z1 - (y + d)\<bar> \<le> err + eps"
        using e1 y by arith
      with near lo1 z(2) False show ?thesis by (simp add: eq)
    qed
    then show "- 140 \<le> z'" "z' \<le> 24"
      "\<bar>z' - (y + d - (if 13 < fl (z1 - 10) then 160 else 0))\<bar> \<le> err + 1 / 2 ^ 44"
      by (simp_all only: eps_def)
  qed
qed

text \<open>The recycle test is monotone in the position.\<close>

lemma past_mono:
  assumes "z \<le> z'" "13 < fl (fl (z + d) - 10)"
  shows "13 < fl (fl (z' + d) - 10)"
proof -
  have "fl (z + d) \<le> fl (z' + d)" using assms(1) by (intro fl_mono) simp
  then have "fl (fl (z + d) - 10) \<le> fl (fl (z' + d) - 10)" by (intro fl_mono) simp
  with assms(2) show ?thesis by simp
qed


lemma residues_distinct:
  assumes "(m + int i) mod 8 = 0" "(n + int j) mod 8 = 0" "i < 8" "j < 8" "m = n"
  shows "i = j"
  using assms by presburger

lemma ring_inv_fl_step:
  assumes inv: "ring_inv_fl err zs" and err: "err \<le> 1"
    and d: "0 \<le> fl (speed * delta)" "fl (speed * delta) \<le> 128"
  shows "ring_inv_fl (err + 1 / 2 ^ 44) (map (recycledZ_fl speed delta) zs)"
proof -
  from inv obtain b ns where len: "length ns = SEGMENT_COUNT"
    and lenz: "length zs = SEGMENT_COUNT"
    and res: "\<forall>i < SEGMENT_COUNT. (ns ! i + int i) mod int SEGMENT_COUNT = 0"
    and win: "\<forall>i < SEGMENT_COUNT. \<forall>j < SEGMENT_COUNT. ns ! i - ns ! j < int SEGMENT_COUNT"
    and pt: "\<forall>i < SEGMENT_COUNT.
              fl (zs ! i) = zs ! i \<and> - 140 \<le> zs ! i \<and> zs ! i \<le> 24
              \<and> \<bar>zs ! i - (b + SEGMENT_LENGTH * real_of_int (ns ! i))\<bar> \<le> err"
    unfolding ring_inv_fl_def by blast
  define d where "d = fl (speed * delta)"
  define past where "past i \<longleftrightarrow> 13 < fl (fl (zs ! i + d) - 10)" for i
  define ns' where "ns' = map (\<lambda>i. if past i then ns ! i - int SEGMENT_COUNT else ns ! i)
      [0..<SEGMENT_COUNT]"
  have ns': "ns' ! i = (if past i then ns ! i - int SEGMENT_COUNT else ns ! i)"
    if "i < SEGMENT_COUNT" for i
    using that by (simp add: ns'_def)
  have point: "fl (recycledZ_fl speed delta (zs ! i)) = recycledZ_fl speed delta (zs ! i)
      \<and> - 140 \<le> recycledZ_fl speed delta (zs ! i)
      \<and> recycledZ_fl speed delta (zs ! i) \<le> 24
      \<and> \<bar>recycledZ_fl speed delta (zs ! i)
           - (b + d + SEGMENT_LENGTH * real_of_int (ns' ! i))\<bar> \<le> err + 1 / 2 ^ 44"
    if i: "i < SEGMENT_COUNT" for i
  proof -
    from pt i have z: "fl (zs ! i) = zs ! i" "- 140 \<le> zs ! i" "zs ! i \<le> 24"
      and y: "\<bar>zs ! i - (b + SEGMENT_LENGTH * real_of_int (ns ! i))\<bar> \<le> err"
      by simp_all
    have dd: "d = fl (speed * delta)" "0 \<le> d" "d \<le> 128"
      using d by (simp_all add: d_def)
    have "b + SEGMENT_LENGTH * real_of_int (ns ! i) + d - (if past i then 160 else 0)
        = b + d + SEGMENT_LENGTH * real_of_int (ns' ! i)"
      by (simp add: ns'[OF i] SEGMENT_LENGTH_def SEGMENT_COUNT_def)
    with recycledZ_fl_point(2-5)[OF z y dd] show ?thesis
      by (simp add: past_def)
  qed
  have order: "ns ! i < ns ! j"
    if i: "i < SEGMENT_COUNT" and j: "j < SEGMENT_COUNT" and pi: "\<not> past i" and pj: "past j"
    for i j
  proof -
    have "zs ! i < zs ! j"
    proof (rule ccontr)
      assume "\<not> zs ! i < zs ! j"
      then have "zs ! j \<le> zs ! i" by simp
      from past_mono[OF this pj[unfolded past_def]] pi show False by (simp add: past_def)
    qed
    moreover from pt i have "\<bar>zs ! i - (b + SEGMENT_LENGTH * real_of_int (ns ! i))\<bar> \<le> err"
      by simp
    moreover from pt j have "\<bar>zs ! j - (b + SEGMENT_LENGTH * real_of_int (ns ! j))\<bar> \<le> err"
      by simp
    ultimately have "SEGMENT_LENGTH * real_of_int (ns ! i) - SEGMENT_LENGTH * real_of_int (ns ! j) < 2"
      using err by arith
    then have "real_of_int (ns ! i - ns ! j) < 1"
      by (simp add: SEGMENT_LENGTH_def)
    then have "ns ! i - ns ! j < 1" by (simp only: of_int_less_1_iff)
    then have le: "ns ! i \<le> ns ! j" by simp
    have "i \<noteq> j" using pi pj by blast
    moreover from res i j have "(ns ! i + int i) mod 8 = 0" "(ns ! j + int j) mod 8 = 0"
      by (simp_all add: SEGMENT_COUNT_def)
    ultimately have "ns ! i \<noteq> ns ! j"
      using residues_distinct[of "ns ! i" i "ns ! j" j] i j by (auto simp: SEGMENT_COUNT_def)
    with le show ?thesis by simp
  qed
  show ?thesis
    unfolding ring_inv_fl_def
  proof (intro exI[of _ "b + d"] exI[of _ ns'] conjI allI impI)
    show "length ns' = SEGMENT_COUNT" by (simp add: ns'_def)
    show "length (map (recycledZ_fl speed delta) zs) = SEGMENT_COUNT" by (simp add: lenz)
  next
    fix i assume i: "i < SEGMENT_COUNT"
    with res have "(ns ! i + int i) mod int SEGMENT_COUNT = 0" by blast
    moreover have "(ns ! i - int SEGMENT_COUNT + int i) mod int SEGMENT_COUNT
        = (ns ! i + int i) mod int SEGMENT_COUNT"
      by (metis add_diff_eq diff_add_eq minus_mod_self2)
    ultimately show "(ns' ! i + int i) mod int SEGMENT_COUNT = 0"
      by (simp add: ns'[OF i])
  next
    fix i j assume i: "i < SEGMENT_COUNT" and j: "j < SEGMENT_COUNT"
    from win i j have a: "ns ! i - ns ! j < int SEGMENT_COUNT" by blast
    show "ns' ! i - ns' ! j < int SEGMENT_COUNT"
    proof (cases "past i"; cases "past j")
      assume "\<not> past i" "past j"
      from order[OF i j this] show ?thesis
        using \<open>\<not> past i\<close> \<open>past j\<close> by (simp add: ns'[OF i] ns'[OF j])
    qed (use a in \<open>simp_all add: ns'[OF i] ns'[OF j]\<close>)
  next
    fix i assume i: "i < SEGMENT_COUNT"
    then have nth: "map (recycledZ_fl speed delta) zs ! i = recycledZ_fl speed delta (zs ! i)"
      by (simp add: lenz)
    from point[OF i]
    show "fl (map (recycledZ_fl speed delta) zs ! i) = map (recycledZ_fl speed delta) zs ! i"
      "- 140 \<le> map (recycledZ_fl speed delta) zs ! i"
      "map (recycledZ_fl speed delta) zs ! i \<le> 24"
      "\<bar>map (recycledZ_fl speed delta) zs ! i
         - (b + d + SEGMENT_LENGTH * real_of_int (ns' ! i))\<bar> \<le> err + 1 / 2 ^ 44"
      unfolding nth by simp_all
  qed
qed


text \<open>
  The step of a tick stays below 128 during the first 32768 ticks: the elapsed time is at
  most a sixteenth of a second per tick, so the speed is at most 2048.
\<close>

lemma tick_step_bounds:
  assumes e: "0 \<le> e" "e \<le> real k / 16" and k: "k < 32768"
    and delta: "0 \<le> delta" "delta \<le> fl (1 / 20)"
  defines "e' \<equiv> fl (e + delta)"
  shows "0 \<le> e'" "e' \<le> real (Suc k) / 16"
    "0 \<le> fl (forwardSpeed_fl e' * delta)" "fl (forwardSpeed_fl e' * delta) \<le> 128"
proof -
  have small: "delta \<le> 1 / 16" using delta(2) by (simp add: fl_max_delta)
  show e0: "0 \<le> e'" unfolding e'_def using e(1) delta(1) by (intro fl_nonneg) simp
  have grid: "fl (real (Suc k) / 16) = real (Suc k) / 16"
    using fl_int_scaled[of "int (Suc k)" "- 4"] k by (simp add: power_int_minus)
  show e1: "e' \<le> real (Suc k) / 16"
    unfolding e'_def using e(2) small by (intro fl_upper grid) simp
  have e2: "e' \<le> 2048" using e1 k by simp
  have h0: "0 \<le> fl (e' * 0.5)" using e0 by (intro fl_nonneg) simp
  have h1: "fl (e' * 0.5) \<le> 1024" using e2 by (intro fl_upper) (simp_all add: fl_ring_consts)
  have s0: "0 \<le> forwardSpeed_fl e'"
    unfolding forwardSpeed_fl_def using h0 by (intro fl_nonneg) (simp add: baseForwardSpeed_def)
  have s1: "forwardSpeed_fl e' \<le> 2048"
    unfolding forwardSpeed_fl_def using h1
    by (intro fl_upper) (simp_all add: baseForwardSpeed_def fl_ring_consts)
  show "0 \<le> fl (forwardSpeed_fl e' * delta)"
    using s0 delta(1) by (intro fl_nonneg) simp
  have "forwardSpeed_fl e' * delta \<le> 2048 * (1 / 16)"
    using s0 s1 delta(1) small by (intro mult_mono) simp_all
  then show "fl (forwardSpeed_fl e' * delta) \<le> 128"
    by (intro fl_upper) (simp_all add: fl_ring_consts)
qed

lemma ticks_fl_inv:
  assumes "ring_inv_fl err zs" and "0 \<le> e" "e \<le> real k / 16"
    and "k + length deltas \<le> 32768"
    and "\<forall>delta \<in> set deltas. 0 \<le> delta \<and> delta \<le> fl (1 / 20)"
    and "err + real (length deltas) / 2 ^ 44 \<le> 1"
  shows "ring_inv_fl (err + real (length deltas) / 2 ^ 44) (snd (ticks_fl deltas (e, zs)))"
  using assms
proof (induction deltas arbitrary: e zs err k)
  case Nil
  then show ?case by simp
next
  case (Cons delta deltas)
  define e' where "e' = fl (e + delta)"
  define zs' where "zs' = map (recycledZ_fl (forwardSpeed_fl e') delta) zs"
  have k: "k < 32768" using Cons.prems(4) by simp
  have delta: "0 \<le> delta" "delta \<le> fl (1 / 20)" using Cons.prems(5) by simp_all
  note b = tick_step_bounds[OF Cons.prems(2,3) k delta, folded e'_def]
  have split: "err + real (length (delta # deltas)) / 2 ^ 44
      = err + 1 / 2 ^ 44 + real (length deltas) / 2 ^ 44"
    by (simp add: add_divide_distrib)
  have "0 \<le> real (length deltas) / (2 ^ 44 :: real)" "(0::real) \<le> 1 / 2 ^ 44" by simp_all
  with Cons.prems(6)[unfolded split] have err: "err \<le> 1" by linarith
  have inv': "ring_inv_fl (err + 1 / 2 ^ 44) zs'"
    unfolding zs'_def using Cons.prems(1) err b(3,4) by (rule ring_inv_fl_step)
  have "ring_inv_fl (err + 1 / 2 ^ 44 + real (length deltas) / 2 ^ 44)
      (snd (ticks_fl deltas (e', zs')))"
  proof (rule Cons.IH[OF inv' b(1,2)])
    show "Suc k + length deltas \<le> 32768" using Cons.prems(4) by simp
    show "\<forall>delta \<in> set deltas. 0 \<le> delta \<and> delta \<le> fl (1 / 20)"
      using Cons.prems(5) by simp
    show "err + 1 / 2 ^ 44 + real (length deltas) / 2 ^ 44 \<le> 1"
      using Cons.prems(6) unfolding split .
  qed
  then show ?case
    unfolding split by (simp add: Let_def e'_def zs'_def)
qed

lemma ring_inv_fl_started: "ring_inv_fl 0 (snd startedRing_fl)"
  unfolding ring_inv_fl_def
proof (intro exI[of _ 0] exI[of _ "map (\<lambda>i. - int i) [0..<SEGMENT_COUNT]"] conjI allI impI)
  fix i assume i: "i < SEGMENT_COUNT"
  have "fl (- real i * SEGMENT_LENGTH) = - real i * SEGMENT_LENGTH"
    using fl_int[of "- (20 * int i)"] i
    by (simp add: SEGMENT_LENGTH_def SEGMENT_COUNT_def mult.commute)
  then have z: "snd startedRing_fl ! i = - real i * SEGMENT_LENGTH"
    using i by (simp add: startedRing_fl_def)
  show "fl (snd startedRing_fl ! i) = snd startedRing_fl ! i"
    using i by (simp add: startedRing_fl_def fl_idem)
  show "- 140 \<le> snd startedRing_fl ! i" "snd startedRing_fl ! i \<le> 24"
    "\<bar>snd startedRing_fl ! i
       - (0 + SEGMENT_LENGTH * real_of_int (map (\<lambda>i. - int i) [0..<SEGMENT_COUNT] ! i))\<bar> \<le> 0"
    unfolding z using i by (simp_all add: SEGMENT_LENGTH_def SEGMENT_COUNT_def)
qed (simp_all add: startedRing_fl_def SEGMENT_COUNT_def)

lemma ring_inv_fl_exact_ring:
  assumes "ring_inv_fl err zs"
  shows "length zs = SEGMENT_COUNT
    \<and> (\<exists>segs. ring_congruent segs \<and> ring_tiles segs
          \<and> (\<forall>i < SEGMENT_COUNT. \<bar>zs ! i - position_z (segs ! i)\<bar> \<le> err))"
proof -
  from assms obtain b ns where len: "length ns = SEGMENT_COUNT"
    and lenz: "length zs = SEGMENT_COUNT"
    and res: "\<forall>i < SEGMENT_COUNT. (ns ! i + int i) mod int SEGMENT_COUNT = 0"
    and win: "\<forall>i < SEGMENT_COUNT. \<forall>j < SEGMENT_COUNT. ns ! i - ns ! j < int SEGMENT_COUNT"
    and pt: "\<forall>i < SEGMENT_COUNT.
              fl (zs ! i) = zs ! i \<and> - 140 \<le> zs ! i \<and> zs ! i \<le> 24
              \<and> \<bar>zs ! i - (b + SEGMENT_LENGTH * real_of_int (ns ! i))\<bar> \<le> err"
    unfolding ring_inv_fl_def by blast
  define segs where "segs = map (\<lambda>n. \<lparr>position_x = 0, position_y = 0,
      position_z = b + SEGMENT_LENGTH * real_of_int n\<rparr>) ns"
  have zs: "map position_z segs = map (\<lambda>n. b + SEGMENT_LENGTH * real_of_int n) ns"
    by (simp add: segs_def comp_def)
  have "ring_inv (map position_z segs)"
    unfolding ring_inv_def using len zs res win by blast
  then have "ring_congruent segs" "ring_tiles segs"
    by (simp_all only: ring_inv_congruent ring_inv_tiles)
  moreover have "\<forall>i < SEGMENT_COUNT. \<bar>zs ! i - position_z (segs ! i)\<bar> \<le> err"
    using pt len by (simp add: segs_def)
  ultimately show ?thesis using lenz by blast
qed

text \<open>
  Claim C1, as amended. In doubles, for the first 32768 ticks of a game, with any delta
  times between 0 and 0.05, there are always 8 track segments, and the forward-axis
  position of every segment lies within \<open>n * 2\<^sup>-\<^sup>4\<^sup>4\<close>, for \<open>n\<close> the number of
  ticks executed, of its position in a ring of segments that are pairwise spaced by exactly
  \<open>SEGMENT_LENGTH\<close> modulo the ring length and that tile the track with no gap and
  no overlap.
\<close>

theorem segment_ring_doubles:
  assumes "\<forall>delta \<in> set deltas. 0 \<le> delta \<and> delta \<le> fl 0.05"
    and "length deltas \<le> 32768"
  shows "length (snd (ticks_fl deltas startedRing_fl)) = SEGMENT_COUNT
    \<and> (\<exists>segs. ring_congruent segs \<and> ring_tiles segs
          \<and> (\<forall>i < SEGMENT_COUNT.
                 \<bar>snd (ticks_fl deltas startedRing_fl) ! i - position_z (segs ! i)\<bar>
                   \<le> real (length deltas) / 2 ^ 44))"
proof -
  have "real (length deltas) \<le> 32768" using assms(2) by simp
  then have "real (length deltas) / 2 ^ 44 \<le> 32768 / 2 ^ 44"
    by (rule divide_right_mono) simp
  then have small: "0 + real (length deltas) / 2 ^ 44 \<le> 1" by simp
  have "ring_inv_fl (0 + real (length deltas) / 2 ^ 44)
      (snd (ticks_fl deltas (0, snd startedRing_fl)))"
    using ring_inv_fl_started _ _ _ _ small
  proof (rule ticks_fl_inv[where k = 0])
    show "\<forall>delta \<in> set deltas. 0 \<le> delta \<and> delta \<le> fl (1 / 20)"
      using assms(1) by simp
  qed (use assms(2) in simp_all)
  moreover have "(0, snd startedRing_fl) = startedRing_fl"
    by (simp add: startedRing_fl_def)
  ultimately have "ring_inv_fl (real (length deltas) / 2 ^ 44)
      (snd (ticks_fl deltas startedRing_fl))"
    by simp
  then show ?thesis by (rule ring_inv_fl_exact_ring)
qed

theorem segment_ring_doubles_witness:
  "\<not> (\<exists>delta \<in> set [fl (16 / 1000), fl (17 / 1000)]. \<not> (0 \<le> delta \<and> delta \<le> fl 0.05))
   \<and> length [fl (16 / 1000), fl (17 / 1000)] \<le> 32768
   \<and> length (snd (ticks_fl [fl (16 / 1000), fl (17 / 1000)] startedRing_fl)) = SEGMENT_COUNT
   \<and> (\<exists>segs. ring_congruent segs \<and> ring_tiles segs
          \<and> (\<forall>i < SEGMENT_COUNT.
                 \<bar>snd (ticks_fl [fl (16 / 1000), fl (17 / 1000)] startedRing_fl) ! i
                    - position_z (segs ! i)\<bar>
                   \<le> real (length [fl (16 / 1000), fl (17 / 1000)]) / 2 ^ 44))"
proof -
  have a: "\<forall>delta \<in> set [fl (16 / 1000), fl (17 / 1000)]. 0 \<le> delta \<and> delta \<le> fl 0.05"
    by (simp add: fl_nonneg fl_mono)
  have b: "length [fl (16 / 1000), fl (17 / 1000)] \<le> 32768" by simp
  from segment_ring_doubles[OF a b] a b show ?thesis by blast
qed

text \<open>
  The spacing is not exact in doubles. The first frame of a game, 16 ms after the page
  has loaded, moves the ring by \<open>fl (fl (10 + fl (0.016 * 0.5)) * 0.016)\<close>; after it
  segments 6 and 7 are \<open>20 + 2\<^sup>-\<^sup>4\<^sup>6\<close> apart and segments 0 and 1 are
  \<open>20 - 5 * 2\<^sup>-\<^sup>5\<^sup>4\<close> apart.
\<close>

lemma not_past: "x \<le> 13 \<Longrightarrow> (13 < fl x) = False"
  using fl_upper[of x 13] by (simp add: fl_consts)

lemma not_past_neg: "- 13 \<le> x \<Longrightarrow> (13 < - fl x) = False"
  using fl_lower[of "- 13" x] by (simp add: fl_consts fl_minus)

lemma first_tick_doubles:
  "snd (ticks_fl [fl (16 / 1000)] startedRing_fl) =
       [2884609604526331 / 18014398509481984,
        - (1396106877285599 / 70368744177664),
        - (2803481760838879 / 70368744177664),
        - (4210856644392159 / 70368744177664),
        - (5618231527945439 / 70368744177664),
        - (7025606411498719 / 70368744177664),
        - (8432981295051999 / 70368744177664),
        - (307511130581415 / 2199023255552)]"
proof -
  have r0: "fl (2 / 125) = 1152921504606847 / 72057594037927936"
    by (subst fl_eval[of "-6"]) (simp_all add: rne_def Let_def power_int_minus)
  have r1: "fl (1152921504606847 / 72057594037927936) = 1152921504606847 / 72057594037927936"
    by (subst fl_eval[of "-6"]) (simp_all add: rne_def Let_def power_int_minus)
  have r2: "fl (1152921504606847 / 144115188075855872) = 1152921504606847 / 144115188075855872"
    by (subst fl_eval[of "-7"]) (simp_all add: rne_def Let_def power_int_minus)
  have r3: "fl (1442304802263165567 / 144115188075855872) = 2817001566920245 / 281474976710656"
    by (subst fl_eval[of "3"]) (simp_all add: rne_def Let_def power_int_minus)
  have r4: "fl (3247781685013534463329329917515 / 20282409603651670423947251286016) = 2884609604526331 / 18014398509481984"
    by (subst fl_eval[of "-3"]) (simp_all add: rne_def Let_def power_int_minus)
  have r5: "fl (2884609604526331 / 18014398509481984) = 2884609604526331 / 18014398509481984"
    by (subst fl_eval[of "-3"]) (simp_all add: rne_def Let_def power_int_minus)
  have r7: "fl (357403360585113349 / 18014398509481984) = 1396106877285599 / 70368744177664"
    by (subst fl_eval[of "4"]) (simp_all add: rne_def Let_def power_int_minus)
  have r9: "fl (717691330774753029 / 18014398509481984) = 2803481760838879 / 70368744177664"
    by (subst fl_eval[of "5"]) (simp_all add: rne_def Let_def power_int_minus)
  have r11: "fl (1077979300964392709 / 18014398509481984) = 4210856644392159 / 70368744177664"
    by (subst fl_eval[of "5"]) (simp_all add: rne_def Let_def power_int_minus)
  have r13: "fl (1438267271154032389 / 18014398509481984) = 5618231527945439 / 70368744177664"
    by (subst fl_eval[of "6"]) (simp_all add: rne_def Let_def power_int_minus)
  have r15: "fl (1798555241343672069 / 18014398509481984) = 7025606411498719 / 70368744177664"
    by (subst fl_eval[of "6"]) (simp_all add: rne_def Let_def power_int_minus)
  have r17: "fl (2158843211533311749 / 18014398509481984) = 8432981295051999 / 70368744177664"
    by (subst fl_eval[of "6"]) (simp_all add: rne_def Let_def power_int_minus)
  have r19: "fl (2519131181722951429 / 18014398509481984) = 307511130581415 / 2199023255552"
    by (subst fl_eval[of "7"]) (simp_all add: rne_def Let_def power_int_minus)
  have ints: "fl 20 = 20" "fl 40 = 40" "fl 60 = 60" "fl 80 = 80" "fl 100 = 100" "fl 120 = 120" "fl 140 = 140"
    using fl_int[of 20] fl_int[of 40] fl_int[of 60] fl_int[of 80] fl_int[of 100] fl_int[of 120] fl_int[of 140] by simp_all
  show ?thesis
    by (simp add: startedRing_fl_def forwardSpeed_fl_def recycledZ_fl_def Let_def
          SEGMENT_COUNT_def SEGMENT_LENGTH_def baseForwardSpeed_def camera_position_z_def
          upt_rec[of _ "numeral _"] upt_rec[of _ "Suc _"]
          fl_zero fl_minus fl_consts not_past not_past_neg ints r0 r1 r2 r3 r4 r5 r7 r9 r11 r13 r15 r17 r19)
qed

theorem segment_spacing_rounded:
  "(0::real) \<le> fl (16 / 1000)
   \<and> snd (ticks_fl [fl (16 / 1000)] startedRing_fl) ! 6
       - snd (ticks_fl [fl (16 / 1000)] startedRing_fl) ! 7 = 20 + 1 / 2 ^ 46
   \<and> snd (ticks_fl [fl (16 / 1000)] startedRing_fl) ! 0
       - snd (ticks_fl [fl (16 / 1000)] startedRing_fl) ! 1 = 20 - 5 / 2 ^ 54
   \<and> \<not> ring_congruent
         (map (\<lambda>z. \<lparr>position_x = 0, position_y = 0, position_z = z\<rparr>)
            (snd (ticks_fl [fl (16 / 1000)] startedRing_fl)))
   \<and> \<not> ring_tiles
         (map (\<lambda>z. \<lparr>position_x = 0, position_y = 0, position_z = z\<rparr>)
            (snd (ticks_fl [fl (16 / 1000)] startedRing_fl)))"
proof (intro conjI)
  show "(0::real) \<le> fl (16 / 1000)" by (simp add: fl_nonneg)
  show "snd (ticks_fl [fl (16 / 1000)] startedRing_fl) ! 6
       - snd (ticks_fl [fl (16 / 1000)] startedRing_fl) ! 7 = 20 + 1 / 2 ^ 46"
    unfolding first_tick_doubles by simp
  show "snd (ticks_fl [fl (16 / 1000)] startedRing_fl) ! 0
       - snd (ticks_fl [fl (16 / 1000)] startedRing_fl) ! 1 = 20 - 5 / 2 ^ 54"
    unfolding first_tick_doubles by simp
  show "\<not> ring_congruent
         (map (\<lambda>z. \<lparr>position_x = 0, position_y = 0, position_z = z\<rparr>)
            (snd (ticks_fl [fl (16 / 1000)] startedRing_fl)))"
  proof
    assume a: "ring_congruent
         (map (\<lambda>z. \<lparr>position_x = 0, position_y = 0, position_z = z\<rparr>)
            (snd (ticks_fl [fl (16 / 1000)] startedRing_fl)))"
    from a[unfolded ring_congruent_def first_tick_doubles, rule_format, of 0 1] show False
      by (simp add: multiple_of_ring_def RING_LENGTH_def SEGMENT_LENGTH_def SEGMENT_COUNT_def)
  qed
  show "\<not> ring_tiles
         (map (\<lambda>z. \<lparr>position_x = 0, position_y = 0, position_z = z\<rparr>)
            (snd (ticks_fl [fl (16 / 1000)] startedRing_fl)))"
    unfolding first_tick_doubles
    by (simp add: ring_tiles_def SEGMENT_LENGTH_def SEGMENT_COUNT_def sort_key_def)
qed


section \<open>The collision law\<close>

lemma clearNear_take:
  "i \<le> length obs \<Longrightarrow>
   clearNear segZ i obs =
     filter (\<lambda>obs. \<not> \<bar>position_z obs - segZ\<bar> < SEGMENT_LENGTH * 0.6) (take i obs)
     @ drop i obs"
proof (induction i arbitrary: obs)
  case 0
  then show ?case by simp
next
  case (Suc i)
  then have i: "i < length obs" by simp
  show ?case
  proof (cases "\<bar>position_z (obs ! i) - segZ\<bar> < SEGMENT_LENGTH * 0.6")
    case True
    have "i \<le> length (take i obs @ drop (Suc i) obs)" using i by simp
    from Suc.IH[OF this] True i show ?thesis
      by (simp add: take_Suc_conv_app_nth)
  next
    case False
    from Suc.IH[of obs] False i show ?thesis
      by (simp add: take_Suc_conv_app_nth Cons_nth_drop_Suc)
  qed
qed

lemma clearNear_filter:
  "clearNear segZ (length obs) obs =
     filter (\<lambda>obs. \<not> \<bar>position_z obs - segZ\<bar> < SEGMENT_LENGTH * 0.6) obs"
  by (simp add: clearNear_take)

lemma spawn_keeps:
  "obs \<in> set (obstacles w) \<Longrightarrow> obs \<in> set (obstacles (spawnObstacleOnSegment rnd seg w))"
  by (cases "random_value (rnd (randomCalls w)) > OBSTACLE_CHANCE_PER_SEGMENT")
     (simp_all add: spawn_skip spawn_box)

lemma updateSegment_keeps:
  assumes "obs \<in> set (obstacles w)"
    and "position_z seg + forwardSpeed w * delta - SEGMENT_LENGTH / 2 > camera_position_z + 5
         \<longrightarrow> SEGMENT_LENGTH * 0.6
             \<le> \<bar>position_z obs
                - (position_z seg + forwardSpeed w * delta - SEGMENT_LENGTH * real SEGMENT_COUNT)\<bar>"
  shows "obs \<in> set (obstacles (snd (updateSegment rnd delta seg w)))"
  using assms
  by (auto simp: updateSegment_def Let_def Math_random_def clearNear_filter intro!: spawn_keeps)

lemma forEachSegment_keeps:
  assumes "obs \<in> set (obstacles w)"
    and "\<forall>seg \<in> set segs.
         position_z seg + forwardSpeed w * delta - SEGMENT_LENGTH / 2 > camera_position_z + 5
         \<longrightarrow> SEGMENT_LENGTH * 0.6
             \<le> \<bar>position_z obs
                - (position_z seg + forwardSpeed w * delta - SEGMENT_LENGTH * real SEGMENT_COUNT)\<bar>"
  shows "obs \<in> set (obstacles (snd (forEachSegment rnd delta segs w)))"
  using assms
proof (induction segs arbitrary: w)
  case Nil
  then show ?case by simp
next
  case (Cons seg segs)
  from Cons.prems have "obs \<in> set (obstacles (snd (updateSegment rnd delta seg w)))"
    by (intro updateSegment_keeps) simp_all
  moreover from Cons.prems(2) have "\<forall>s \<in> set segs.
         position_z s + forwardSpeed (snd (updateSegment rnd delta seg w)) * delta
           - SEGMENT_LENGTH / 2 > camera_position_z + 5
         \<longrightarrow> SEGMENT_LENGTH * 0.6
             \<le> \<bar>position_z obs
                - (position_z s + forwardSpeed (snd (updateSegment rnd delta seg w)) * delta
                   - SEGMENT_LENGTH * real SEGMENT_COUNT)\<bar>"
    by (simp add: updateSegment_frame)
  ultimately show ?case
    using Cons.IH[of "snd (updateSegment rnd delta seg w)"]
    by (simp only: forEachSegment_Cons_snd)
qed

lemma beforeCollisionCheck_obstacles:
  "obstacles (beforeCollisionCheck rnd delta w) =
     map (\<lambda>obs. obs\<lparr>position_z := position_z obs + forwardStep w delta\<rparr>)
       (obstacles (snd (forEachSegment rnd delta (slideSegments w)
          (w\<lparr>elapsedSinceStart := elapsedSinceStart w + delta,
             forwardSpeed := baseForwardSpeed + (elapsedSinceStart w + delta) * 0.5,
             score := score w + delta * 10,
             player := map_option
                   (\<lambda>p. p\<lparr>position_x := position_x p
                          + (targetLaneX w - position_x p) * min (LERP_FACTOR * delta) 1\<rparr>)
                   (player w)\<rparr>))))"
  by (simp add: beforeCollisionCheck_def Let_def case_prod_beta forEachSegment_frame
        forwardStep_def)

lemma forwardStep_forwardSpeed:
  "forwardStep w delta = forwardSpeed (updateGame rnd delta w) * delta"
  by (simp add: forwardStep_def updateGame_fields)

lemma pointer_obstacles:
  "obstacles (onPointerDown x w) = obstacles w"
  "obstacles (onPointerMove x w) = obstacles w"
  "obstacles (onPointerUp w) = obstacles w"
  by (simp_all add: onPointerDown_def onPointerMove_def onPointerUp_def Let_def setLane_frame)

lemma game_over_frozen:
  assumes "gameState v = GAME_OVER" and "OverlayTap \<notin> set events"
  shows "gameState (run rnd events v) = GAME_OVER
    \<and> score (run rnd events v) = score v
    \<and> highScore (run rnd events v) = highScore v
    \<and> elapsedSinceStart (run rnd events v) = elapsedSinceStart v
    \<and> forwardSpeed (run rnd events v) = forwardSpeed v
    \<and> player (run rnd events v) = player v
    \<and> slideSegments (run rnd events v) = slideSegments v
    \<and> obstacles (run rnd events v) = obstacles v"
  using assms
proof (induction events arbitrary: v)
  case Nil
  then show ?case by (simp add: run_Nil)
next
  case (Cons e events)
  from Cons.prems have step: "gameState (dispatch rnd e v) = GAME_OVER
    \<and> score (dispatch rnd e v) = score v
    \<and> highScore (dispatch rnd e v) = highScore v
    \<and> elapsedSinceStart (dispatch rnd e v) = elapsedSinceStart v
    \<and> forwardSpeed (dispatch rnd e v) = forwardSpeed v
    \<and> player (dispatch rnd e v) = player v
    \<and> slideSegments (dispatch rnd e v) = slideSegments v
    \<and> obstacles (dispatch rnd e v) = obstacles v"
    by (cases e) (simp_all add: animate_def Let_def pointer_frame pointer_obstacles)
  moreover from Cons.prems have "OverlayTap \<notin> set events" by simp
  ultimately show ?case
    using Cons.IH[of "dispatch rnd e v"] by (simp add: run_Cons)
qed

text \<open>
  In exact arithmetic: if before a tick an obstacle is located at exactly the player's
  position, no segment recycled in the tick clears it, and the tick moves the player
  sideways and the obstacle forward by less than the combined radius in total, then the
  tick ends in GAME_OVER and the game stays frozen until the next tap on the overlay.
\<close>

lemma collision_law_exact:
  assumes "player w = Some p" and "p \<in> set (obstacles w)"
    and near: "lateralStep w delta p * lateralStep w delta p
               + forwardStep w delta * forwardStep w delta
               < (playerRadius + obstacleRadius) * (playerRadius + obstacleRadius)"
    and kept: "\<forall>seg \<in> set (slideSegments w).
         position_z seg + forwardStep w delta - SEGMENT_LENGTH / 2 > camera_position_z + 5
         \<longrightarrow> SEGMENT_LENGTH * 0.6
             \<le> \<bar>position_z p
                - (position_z seg + forwardStep w delta - SEGMENT_LENGTH * real SEGMENT_COUNT)\<bar>"
    and "OverlayTap \<notin> set events"
  shows "gameState (updateGame rnd delta w) = GAME_OVER
    \<and> (hits q obs \<longrightarrow> collisionLoop q (obs # rest) toRemove = None)
    \<and> gameState (run rnd events (updateGame rnd delta w)) = GAME_OVER
    \<and> score (run rnd events (updateGame rnd delta w)) = score (updateGame rnd delta w)
    \<and> highScore (run rnd events (updateGame rnd delta w)) = highScore (updateGame rnd delta w)
    \<and> player (run rnd events (updateGame rnd delta w)) = player (updateGame rnd delta w)
    \<and> slideSegments (run rnd events (updateGame rnd delta w))
        = slideSegments (updateGame rnd delta w)
    \<and> obstacles (run rnd events (updateGame rnd delta w)) = obstacles (updateGame rnd delta w)"
proof -
  let ?v = "beforeCollisionCheck rnd delta w"
  let ?w4 = "w\<lparr>elapsedSinceStart := elapsedSinceStart w + delta,
             forwardSpeed := baseForwardSpeed + (elapsedSinceStart w + delta) * 0.5,
             score := score w + delta * 10,
             player := map_option
                   (\<lambda>p. p\<lparr>position_x := position_x p
                          + (targetLaneX w - position_x p) * min (LERP_FACTOR * delta) 1\<rparr>)
                   (player w)\<rparr>"
  define p' where "p' = p\<lparr>position_x := position_x p + lateralStep w delta p\<rparr>"
  define obs' where "obs' = p\<lparr>position_z := position_z p + forwardStep w delta\<rparr>"
  have speed: "forwardSpeed ?w4 * delta = forwardStep w delta"
    by (simp add: forwardStep_def)
  have "p \<in> set (obstacles (snd (forEachSegment rnd delta (slideSegments w) ?w4)))"
  proof (rule forEachSegment_keeps)
    show "p \<in> set (obstacles ?w4)" using assms(2) by simp
    show "\<forall>seg \<in> set (slideSegments w).
         position_z seg + forwardSpeed ?w4 * delta - SEGMENT_LENGTH / 2 > camera_position_z + 5
         \<longrightarrow> SEGMENT_LENGTH * 0.6
             \<le> \<bar>position_z p
                - (position_z seg + forwardSpeed ?w4 * delta - SEGMENT_LENGTH * real SEGMENT_COUNT)\<bar>"
      unfolding speed by (rule kept)
  qed
  then have in_list: "obs' \<in> set (obstacles ?v)"
    unfolding beforeCollisionCheck_obstacles obs'_def set_map by (rule imageI)
  have player': "player ?v = Some p'"
    using assms(1) by (simp add: beforeCollisionCheck_fields p'_def lateralStep_def)
  have "distSq p' obs' = lateralStep w delta p * lateralStep w delta p
               + forwardStep w delta * forwardStep w delta"
    by (simp add: distSq_def p'_def obs'_def Let_def)
  with near have "hits p' obs'"
    by (simp add: hits_def Let_def)
  with in_list have "checkCollisions ?v = triggerGameOver ?v"
    by (intro checkCollisions_hit[OF player']) blast
  then have over: "gameState (updateGame rnd delta w) = GAME_OVER"
    by (simp add: updateGame_checkCollisions triggerGameOver_def Let_def)
  from game_over_frozen[OF over assms(5), of rnd] over show ?thesis
    by simp
qed

text \<open>
  The steps of a tick are small enough, with a margin, whenever the player already sits on
  its target lane and the tick runs at no more than 21.9 units per second, for every delta
  time that \<open>animate\<close> can pass.
\<close>

lemma steps_small_when_settled:
  assumes "position_x p = targetLaneX w"
    and "0 \<le> delta" and "delta \<le> 0.05"
    and "0 \<le> elapsedSinceStart w"
    and "forwardSpeed (updateGame rnd delta w) \<le> 21.9"
  shows "lateralStep w delta p * lateralStep w delta p
           + forwardStep w delta * forwardStep w delta \<le> 1.2"
proof -
  define s where "s = baseForwardSpeed + (elapsedSinceStart w + delta) * 0.5"
  have s: "0 \<le> s" "s \<le> 21.9"
    using assms(2,4,5) by (simp_all add: s_def baseForwardSpeed_def updateGame_fields)
  have "s * delta \<le> s * 0.05"
    using s(1) assms(3) by (rule mult_left_mono[rotated])
  with s have hi: "s * delta \<le> 1.095" by simp
  have lo: "0 \<le> s * delta" using s(1) assms(2) by simp
  from lo hi have "(s * delta) * (s * delta) \<le> 1.095 * 1.095"
    by (intro mult_mono) simp_all
  moreover have "lateralStep w delta p = 0"
    using assms(1) by (simp add: lateralStep_def)
  ultimately show ?thesis
    by (simp add: forwardStep_def s_def)
qed


subsection \<open>The collision tick in doubles\<close>

text \<open>
  With coordinates up to 1000 and an elapsed time up to a million seconds every rounding
  of the tick is off by at most \<open>2\<^sup>-\<^sup>3\<^sup>3\<close>, so the squared distance that
  \<open>checkCollisions\<close> computes in doubles differs from the exact one by less than
  \<open>0.00002\<close>, and the position of a recycled segment by less than \<open>10\<^sup>-\<^sup>8\<close>.
\<close>

text \<open>The forward step of a tick in doubles is close to the exact \<open>forwardStep\<close>.\<close>

lemma forwardStep_fl_close:
  assumes e: "0 \<le> elapsedSinceStart w" "elapsedSinceStart w \<le> 1000000"
    and d: "0 \<le> delta" "delta \<le> 1 / 16"
  shows "\<bar>fl (forwardSpeed_fl (fl (elapsedSinceStart w + delta)) * delta) - forwardStep w delta\<bar>
         \<le> 1 / 1000000000"
proof -
  define e0 where "e0 = elapsedSinceStart w"
  define E where "E = e0 + delta"
  define e1 where "e1 = fl E"
  define h where "h = fl (e1 / 2)"
  define fs where "fs = fl (10 + h)"
  define FS where "FS = 10 + E / 2"
  have e0: "0 \<le> e0" "e0 \<le> 1000000" using e by (simp_all add: e0_def)
  have E: "0 \<le> E" "E \<le> 1000001" using e0 d unfolding E_def by arith+
  then have "\<bar>E\<bar> \<le> 1048576" by arith
  then have a1: "\<bar>e1 - E\<bar> \<le> 1 / 8000000000"
    unfolding e1_def by (rule fl_close)
  have "\<bar>e1 / 2\<bar> \<le> 1048576" using a1 E by arith
  then have a2: "\<bar>h - e1 / 2\<bar> \<le> 1 / 8000000000"
    unfolding h_def by (rule fl_close)
  have "\<bar>10 + h\<bar> \<le> 1048576" using a1 a2 E by arith
  then have a3: "\<bar>fs - (10 + h)\<bar> \<le> 1 / 8000000000"
    unfolding fs_def by (rule fl_close)
  have speed: "\<bar>fs - FS\<bar> \<le> 3 / 8000000000"
    using a1 a2 a3 unfolding FS_def by arith
  have big: "\<bar>FS\<bar> \<le> 600000" using E unfolding FS_def by arith
  have prod: "\<bar>fs * delta - FS * delta\<bar> \<le> 3 / 8000000000 * (1 / 16) + 600000 * 0"
    using speed _ _ big by (rule abs_mult_close) (use d in simp_all)
  have "\<bar>fs * delta\<bar> \<le> 1048576"
  proof -
    have "\<bar>FS * delta\<bar> \<le> 600000 * (1 / 16)"
      unfolding abs_mult using big d by (intro mult_mono) simp_all
    with prod show ?thesis by arith
  qed
  then have a4: "\<bar>fl (fs * delta) - fs * delta\<bar> \<le> 1 / 8000000000" by (rule fl_close)
  have "\<bar>fl (fs * delta) - FS * delta\<bar> \<le> 1 / 1000000000"
    using a4 prod by arith
  then show ?thesis
    by (simp add: fs_def h_def e1_def e0_def E_def FS_def forwardSpeed_fl_def forwardStep_def
          baseForwardSpeed_def)
qed

text \<open>The lane step in doubles is close to the exact \<open>lateralStep\<close>.\<close>

lemma lerp_fl_close:
  assumes x: "\<bar>position_x p\<bar> \<le> 1000" "\<bar>targetLaneX w\<bar> \<le> 1000"
    and d: "0 \<le> delta" "delta \<le> 1 / 16"
  shows "\<bar>lerp_fl (position_x p) (targetLaneX w) delta
           - (position_x p + lateralStep w delta p)\<bar> \<le> 1 / 1000000"
proof -
  define x0 where "x0 = position_x p"
  define T where "T = targetLaneX w"
  define f where "f = min (fl (LERP_FACTOR * delta)) 1"
  define F where "F = min (LERP_FACTOR * delta) 1"
  define g where "g = fl (T - x0)"
  define s where "s = fl (g * f)"
  have b1: "\<bar>fl (LERP_FACTOR * delta) - LERP_FACTOR * delta\<bar> \<le> 1 / 8000000000"
    using d by (intro fl_close) (simp add: LERP_FACTOR_def)
  then have b2: "\<bar>f - F\<bar> \<le> 1 / 8000000000"
    unfolding f_def F_def by arith
  have "0 \<le> fl (LERP_FACTOR * delta)" using d by (intro fl_nonneg) (simp add: LERP_FACTOR_def)
  then have f: "\<bar>f\<bar> \<le> 1" unfolding f_def by arith
  have x0: "\<bar>x0\<bar> \<le> 1000" "\<bar>T\<bar> \<le> 1000" using x by (simp_all add: x0_def T_def)
  have r: "\<bar>T - x0\<bar> \<le> 2000" using x0 by arith
  then have "\<bar>T - x0\<bar> \<le> 1048576" by arith
  then have b3: "\<bar>g - (T - x0)\<bar> \<le> 1 / 8000000000"
    unfolding g_def by (rule fl_close)
  have prod: "\<bar>g * f - (T - x0) * F\<bar> \<le> 1 / 8000000000 * 1 + 2000 * (1 / 8000000000)"
    using b3 b2 f r by (rule abs_mult_close)
  have F: "\<bar>F\<bar> \<le> 1" using d unfolding F_def LERP_FACTOR_def by arith
  have "\<bar>(T - x0) * F\<bar> \<le> 2000 * 1"
    unfolding abs_mult using r F by (intro mult_mono) simp_all
  with prod have gf: "\<bar>g * f\<bar> \<le> 2001" by arith
  then have "\<bar>g * f\<bar> \<le> 1048576" by arith
  then have b4: "\<bar>s - g * f\<bar> \<le> 1 / 8000000000"
    unfolding s_def by (rule fl_close)
  have "\<bar>x0 + s\<bar> \<le> 1048576" using gf b4 x0 by arith
  then have b5: "\<bar>fl (x0 + s) - (x0 + s)\<bar> \<le> 1 / 8000000000" by (rule fl_close)
  have "\<bar>fl (x0 + s) - (x0 + (T - x0) * F)\<bar> \<le> 1 / 1000000"
    using b5 b4 prod by arith
  then show ?thesis
    by (simp add: lerp_fl_def lateralStep_def s_def g_def f_def F_def x0_def T_def)
qed


lemma collision_consts_fl:
  "fl (fl (fl playerRadius + fl obstacleRadius) * fl (fl playerRadius + fl obstacleRadius))
     = 5449355549118301 / 4503599627370496"
  "fl (SEGMENT_LENGTH * fl 0.6) = 12"
proof -
  have r: "fl (3 / 5) = 5404319552844595 / 9007199254740992"
    by (subst fl_eval[of "-1"]) (simp_all add: rne_def Let_def power_int_minus)
  have c: "fl (9907919180215091 / 9007199254740992) = 2476979795053773 / 2251799813685248"
    by (subst fl_eval[of 0]) (simp_all add: rne_def Let_def power_int_minus)
  have t: "fl (6135428905104631294035961535529 / 5070602400912917605986812821504)
      = 5449355549118301 / 4503599627370496"
    by (subst fl_eval[of 0]) (simp_all add: rne_def Let_def power_int_minus)
  have s: "fl (27021597764222975 / 2251799813685248) = 12"
    by (subst fl_eval[of 3]) (simp_all add: rne_def Let_def power_int_minus)
  show "fl (fl (fl playerRadius + fl obstacleRadius) * fl (fl playerRadius + fl obstacleRadius))
     = 5449355549118301 / 4503599627370496"
    by (simp add: playerRadius_def obstacleRadius_def fl_consts r c t)
  show "fl (SEGMENT_LENGTH * fl 0.6) = 12"
    by (simp add: SEGMENT_LENGTH_def r s)
qed

lemma square_bound:
  fixes a :: real
  assumes "a * a \<le> 6 / 5"
  shows "\<bar>a\<bar> \<le> 11 / 10"
proof (rule ccontr)
  assume "\<not> \<bar>a\<bar> \<le> 11 / 10"
  then have "11 / 10 * (11 / 10) < \<bar>a\<bar> * \<bar>a\<bar>"
    by (intro mult_strict_mono) simp_all
  with assms show False by simp
qed

text \<open>
  A product of two doubles that are close to \<open>A\<close>, rounded, is close to
  \<open>A\<^sup>2\<close>, for \<open>A\<close> within the combined radius.
\<close>

lemma square_fl_close:
  assumes "\<bar>a - A\<bar> \<le> 1 / 500000" "\<bar>A\<bar> \<le> 11 / 10"
  shows "\<bar>fl (a * a) - A * A\<bar> \<le> 1 / 200000"
proof -
  have a: "\<bar>a\<bar> \<le> 12 / 10" using assms by arith
  have prod: "\<bar>a * a - A * A\<bar> \<le> 1 / 500000 * (12 / 10) + 11 / 10 * (1 / 500000)"
    using assms(1) assms(1) a assms(2) by (rule abs_mult_close)
  have "\<bar>A * A\<bar> \<le> 11 / 10 * (11 / 10)"
    unfolding abs_mult using assms(2) by (intro mult_mono) simp_all
  with prod have "\<bar>a * a\<bar> \<le> 1048576" by arith
  then have "\<bar>fl (a * a) - a * a\<bar> \<le> 1 / 8000000000" by (rule fl_close)
  with prod show ?thesis by arith
qed

lemma hits_fl_margin:
  assumes x: "\<bar>x' - (position_x p + LS)\<bar> \<le> 1 / 1000000"
    and z: "\<bar>z' - (position_z p + FWD)\<bar> \<le> 1 / 1000000"
    and near: "LS * LS + FWD * FWD \<le> 1.2"
  shows "hits_fl (p\<lparr>position_x := x'\<rparr>) (p\<lparr>position_z := z'\<rparr>)"
proof -
  define dx where "dx = fl (position_x p - x')"
  define dz where "dz = fl (z' - position_z p)"
  have nn: "0 \<le> LS * LS" "0 \<le> FWD * FWD" by simp_all
  have "LS * LS \<le> 6 / 5" "FWD * FWD \<le> 6 / 5" using near nn by arith+
  then have LS: "\<bar>LS\<bar> \<le> 11 / 10" and FWD: "\<bar>FWD\<bar> \<le> 11 / 10"
    by (simp_all only: square_bound)
  have "\<bar>position_x p - x'\<bar> \<le> 1048576" using x LS by arith
  then have "\<bar>dx - (position_x p - x')\<bar> \<le> 1 / 8000000000"
    unfolding dx_def by (rule fl_close)
  with x have dx: "\<bar>dx - (- LS)\<bar> \<le> 1 / 500000" by arith
  have "\<bar>z' - position_z p\<bar> \<le> 1048576" using z FWD by arith
  then have "\<bar>dz - (z' - position_z p)\<bar> \<le> 1 / 8000000000"
    unfolding dz_def by (rule fl_close)
  with z have dz: "\<bar>dz - FWD\<bar> \<le> 1 / 500000" by arith
  have mLS: "\<bar>- LS\<bar> \<le> 11 / 10" using LS by simp
  have sx: "\<bar>fl (dx * dx) - LS * LS\<bar> \<le> 1 / 200000"
    using square_fl_close[OF dx mLS] by simp
  have sz: "\<bar>fl (dz * dz) - FWD * FWD\<bar> \<le> 1 / 200000"
    by (rule square_fl_close[OF dz FWD])
  have "\<bar>fl (dx * dx) + fl (dz * dz)\<bar> \<le> 1048576"
    using sx sz near nn by arith
  then have "\<bar>fl (fl (dx * dx) + fl (dz * dz)) - (fl (dx * dx) + fl (dz * dz))\<bar>
      \<le> 1 / 8000000000"
    by (rule fl_close)
  with sx sz near have "fl (fl (dx * dx) + fl (dz * dz)) < 5449355549118301 / 4503599627370496"
    by arith
  moreover have "distSq_fl (p\<lparr>position_x := x'\<rparr>) (p\<lparr>position_z := z'\<rparr>)
      = fl (fl (dx * dx) + fl (dz * dz))"
    by (simp add: distSq_fl_def Let_def dx_def dz_def fl_zero fl_idem)
  ultimately show ?thesis
    by (simp add: hits_fl_def Let_def collision_consts_fl)
qed

lemma not_cleared_margin:
  assumes st: "\<bar>fl (speed * delta) - FWD\<bar> \<le> 1 / 1000000000"
    and b: "\<bar>s\<bar> \<le> 1000" "\<bar>z\<bar> \<le> 1000" "\<bar>FWD\<bar> \<le> 11 / 10"
    and kept: "s + FWD - 10 > 13 - 1 / 1000 \<longrightarrow> 12 + 1 / 1000 \<le> \<bar>z - (s + FWD - 160)\<bar>"
  shows "\<not> cleared_fl speed delta s z"
proof
  assume c: "cleared_fl speed delta s z"
  define s2 where "s2 = fl (s + fl (speed * delta))"
  define s3 where "s3 = fl (s2 - 160)"
  from c have past: "13 < fl (s2 - 10)"
    by (simp add: cleared_fl_def s2_def fl_ring_consts)
  then have eq: "recycledZ_fl speed delta s = s3"
    by (simp add: recycledZ_fl_def Let_def s2_def s3_def fl_ring_consts)
  from c have close: "\<bar>fl (z - s3)\<bar> < 12"
    unfolding cleared_fl_def eq collision_consts_fl by simp
  have "\<bar>s + fl (speed * delta)\<bar> \<le> 1048576" using st b by arith
  then have e2: "\<bar>s2 - (s + fl (speed * delta))\<bar> \<le> 1 / 8000000000"
    unfolding s2_def by (rule fl_close)
  have "23 < s2"
  proof (rule ccontr)
    assume "\<not> 23 < s2"
    then have "fl (s2 - 10) \<le> 13" by (intro fl_upper) (simp_all add: fl_consts)
    with past show False by simp
  qed
  with e2 st have "s + FWD - 10 > 13 - 1 / 1000" by arith
  with kept have far: "12 + 1 / 1000 \<le> \<bar>z - (s + FWD - 160)\<bar>" by simp
  have "\<bar>s2 - 160\<bar> \<le> 1048576" using e2 st b by arith
  then have e3: "\<bar>s3 - (s2 - 160)\<bar> \<le> 1 / 8000000000"
    unfolding s3_def by (rule fl_close)
  have "\<bar>z - s3\<bar> \<le> 1048576" using e3 e2 st b by arith
  then have e4: "\<bar>fl (z - s3) - (z - s3)\<bar> \<le> 1 / 8000000000" by (rule fl_close)
  from far e2 e3 e4 st close show False by arith
qed


lemma tickHits_fl_margin:
  assumes pos: "\<bar>position_x p\<bar> \<le> 1000" "\<bar>position_z p\<bar> \<le> 1000" "\<bar>targetLaneX w\<bar> \<le> 1000"
    and time: "0 \<le> elapsedSinceStart w" "elapsedSinceStart w \<le> 1000000"
      "0 \<le> delta" "delta \<le> 1 / 16"
    and near: "lateralStep w delta p * lateralStep w delta p
               + forwardStep w delta * forwardStep w delta \<le> 1.2"
    and kept: "\<forall>seg \<in> set (slideSegments w). \<bar>position_z seg\<bar> \<le> 1000
         \<and> (position_z seg + forwardStep w delta - SEGMENT_LENGTH / 2
                > camera_position_z + 5 - 1 / 1000
              \<longrightarrow> SEGMENT_LENGTH * 0.6 + 1 / 1000
                  \<le> \<bar>position_z p
                     - (position_z seg + forwardStep w delta
                        - SEGMENT_LENGTH * real SEGMENT_COUNT)\<bar>)"
  shows "tickHits_fl w delta p"
proof -
  define speed where "speed = forwardSpeed_fl (fl (elapsedSinceStart w + delta))"
  define st where "st = fl (speed * delta)"
  define FWD where "FWD = forwardStep w delta"
  define LS where "LS = lateralStep w delta p"
  have c1: "\<bar>st - FWD\<bar> \<le> 1 / 1000000000"
    unfolding st_def speed_def FWD_def by (rule forwardStep_fl_close[OF time])
  have c2: "\<bar>lerp_fl (position_x p) (targetLaneX w) delta - (position_x p + LS)\<bar>
      \<le> 1 / 1000000"
    unfolding LS_def by (rule lerp_fl_close[OF pos(1,3) time(3,4)])
  have near': "LS * LS + FWD * FWD \<le> 1.2" using near by (simp add: LS_def FWD_def)
  have nn: "0 \<le> LS * LS" by simp
  have "FWD * FWD \<le> 6 / 5" using near' nn by arith
  then have FWD: "\<bar>FWD\<bar> \<le> 11 / 10" by (rule square_bound)
  have "\<bar>position_z p + st\<bar> \<le> 1048576" using c1 FWD pos(2) by arith
  then have "\<bar>fl (position_z p + st) - (position_z p + st)\<bar> \<le> 1 / 8000000000"
    by (rule fl_close)
  with c1 have c3: "\<bar>fl (position_z p + st) - (position_z p + FWD)\<bar> \<le> 1 / 1000000"
    by arith
  have hit: "hits_fl (p\<lparr>position_x := lerp_fl (position_x p) (targetLaneX w) delta\<rparr>)
      (p\<lparr>position_z := fl (position_z p + st)\<rparr>)"
    using c2 c3 near' by (rule hits_fl_margin)
  have stays: "\<not> cleared_fl speed delta (position_z seg) (position_z p)"
    if seg: "seg \<in> set (slideSegments w)" for seg
  proof (rule not_cleared_margin[OF c1[unfolded st_def] _ pos(2) FWD])
    from kept seg show "\<bar>position_z seg\<bar> \<le> 1000" by blast
    from kept seg show "13 - 1 / 1000 < position_z seg + FWD - 10 \<longrightarrow>
        12 + 1 / 1000 \<le> \<bar>position_z p - (position_z seg + FWD - 160)\<bar>"
      by (simp add: FWD_def SEGMENT_LENGTH_def SEGMENT_COUNT_def camera_position_z_def)
  qed
  then have "list_all (\<lambda>seg. \<not> cleared_fl speed delta (position_z seg) (position_z p))
      (slideSegments w)"
    by (simp add: list_all_iff)
  with hit show ?thesis
    by (simp add: tickHits_fl_def Let_def speed_def st_def)
qed

text \<open>
  Claim C2, as amended. Before a tick, let an obstacle be located at exactly the player's
  position, with the coordinates of the player, the target lane X and the segments of
  magnitude at most 1000, an elapsed time between 0 and 1000000 seconds, and a delta time
  between 0 and 1/16. If (a) every segment that the tick moves to within 0.001 of the
  recycle threshold or past it lands, after its translation by the ring length, at least
  \<open>SEGMENT_LENGTH * 0.6 + 0.001\<close> away from the obstacle, so that recycling does not
  clear the obstacle, and (b) the tick moves the player sideways and the obstacle forward
  by \<open>lateralStep\<^sup>2 + forwardStep\<^sup>2 \<le> 1.2\<close> in total, which is within the squared
  combined radius 1.21 with a margin, then that one tick of \<open>updateGame\<close> ends in
  GAME_OVER, in exact arithmetic and in doubles (\<open>tickHits_fl\<close>). The collision loop
  stops at the first obstacle that hits, whatever obstacles follow it in the list, and
  until the next tap on the overlay no event changes the game state, the score, the high
  score or the world.
\<close>

theorem collision_law:
  assumes "player w = Some p" and "p \<in> set (obstacles w)"
    and pos: "\<bar>position_x p\<bar> \<le> 1000" "\<bar>position_z p\<bar> \<le> 1000" "\<bar>targetLaneX w\<bar> \<le> 1000"
    and time: "0 \<le> elapsedSinceStart w" "elapsedSinceStart w \<le> 1000000"
      "0 \<le> delta" "delta \<le> 1 / 16"
    and near: "lateralStep w delta p * lateralStep w delta p
               + forwardStep w delta * forwardStep w delta \<le> 1.2"
    and kept: "\<forall>seg \<in> set (slideSegments w). \<bar>position_z seg\<bar> \<le> 1000
         \<and> (position_z seg + forwardStep w delta - SEGMENT_LENGTH / 2
                > camera_position_z + 5 - 1 / 1000
              \<longrightarrow> SEGMENT_LENGTH * 0.6 + 1 / 1000
                  \<le> \<bar>position_z p
                     - (position_z seg + forwardStep w delta
                        - SEGMENT_LENGTH * real SEGMENT_COUNT)\<bar>)"
    and "OverlayTap \<notin> set events"
  shows "gameState (updateGame rnd delta w) = GAME_OVER
    \<and> tickHits_fl w delta p
    \<and> (hits q obs \<longrightarrow> collisionLoop q (obs # rest) toRemove = None)
    \<and> gameState (run rnd events (updateGame rnd delta w)) = GAME_OVER
    \<and> score (run rnd events (updateGame rnd delta w)) = score (updateGame rnd delta w)
    \<and> highScore (run rnd events (updateGame rnd delta w)) = highScore (updateGame rnd delta w)
    \<and> player (run rnd events (updateGame rnd delta w)) = player (updateGame rnd delta w)
    \<and> slideSegments (run rnd events (updateGame rnd delta w))
        = slideSegments (updateGame rnd delta w)
    \<and> obstacles (run rnd events (updateGame rnd delta w)) = obstacles (updateGame rnd delta w)"
proof -
  have near': "lateralStep w delta p * lateralStep w delta p
               + forwardStep w delta * forwardStep w delta
               < (playerRadius + obstacleRadius) * (playerRadius + obstacleRadius)"
    using near by (simp add: playerRadius_def obstacleRadius_def)
  have kept': "\<forall>seg \<in> set (slideSegments w).
         position_z seg + forwardStep w delta - SEGMENT_LENGTH / 2 > camera_position_z + 5
         \<longrightarrow> SEGMENT_LENGTH * 0.6
             \<le> \<bar>position_z p
                - (position_z seg + forwardStep w delta - SEGMENT_LENGTH * real SEGMENT_COUNT)\<bar>"
  proof (intro ballI impI)
    fix seg assume seg: "seg \<in> set (slideSegments w)"
      and past: "position_z seg + forwardStep w delta - SEGMENT_LENGTH / 2
        > camera_position_z + 5"
    then have "position_z seg + forwardStep w delta - SEGMENT_LENGTH / 2
        > camera_position_z + 5 - 1 / 1000"
      by simp
    with kept seg have "SEGMENT_LENGTH * 0.6 + 1 / 1000
        \<le> \<bar>position_z p
           - (position_z seg + forwardStep w delta - SEGMENT_LENGTH * real SEGMENT_COUNT)\<bar>"
      by blast
    then show "SEGMENT_LENGTH * 0.6
        \<le> \<bar>position_z p
           - (position_z seg + forwardStep w delta - SEGMENT_LENGTH * real SEGMENT_COUNT)\<bar>"
      by simp
  qed
  have doubles: "tickHits_fl w delta p"
    using pos time near kept by (rule tickHits_fl_margin)
  from collision_law_exact[OF assms(1,2) near' kept' assms(12), of rnd q obs rest toRemove]
    doubles
  show ?thesis by simp
qed

theorem collision_law_witness:
  "player lateWorld = Some \<lparr>position_x = 0, position_y = 1, position_z = 0\<rparr>
   \<and> \<lparr>position_x = 0, position_y = 1, position_z = 0\<rparr> \<in> set (obstacles lateWorld)
   \<and> targetLaneX lateWorld = 0 \<and> elapsedSinceStart lateWorld = 30
   \<and> lateralStep lateWorld (1 / 60) \<lparr>position_x = 0, position_y = 1, position_z = 0\<rparr> = 0
   \<and> forwardStep lateWorld (1 / 60) * forwardStep lateWorld (1 / 60) \<le> 1.2
   \<and> \<not> (\<exists>seg \<in> set (slideSegments lateWorld).
           \<bar>position_z seg\<bar> > 1000
           \<or> position_z seg + forwardStep lateWorld (1 / 60) - SEGMENT_LENGTH / 2
             > camera_position_z + 5 - 1 / 1000)
   \<and> OverlayTap \<notin> set [Frame 30033, PointerDown 100, PointerMove 200, PointerUp]
   \<and> gameState (updateGame constant_random (1 / 60) lateWorld) = GAME_OVER
   \<and> tickHits_fl lateWorld (1 / 60) \<lparr>position_x = 0, position_y = 1, position_z = 0\<rparr>
   \<and> score (run constant_random [Frame 30033, PointerDown 100, PointerMove 200, PointerUp]
              (updateGame constant_random (1 / 60) lateWorld))
       = score (updateGame constant_random (1 / 60) lateWorld)"
proof -
  let ?p = "\<lparr>position_x = 0, position_y = 1, position_z = 0\<rparr>"
  have a: "player lateWorld = Some ?p" "?p \<in> set (obstacles lateWorld)"
    by (simp_all add: lateWorld_def)
  have w: "targetLaneX lateWorld = 0" "elapsedSinceStart lateWorld = 30"
    by (simp_all add: lateWorld_def)
  have pos: "\<bar>position_x ?p\<bar> \<le> 1000" "\<bar>position_z ?p\<bar> \<le> 1000"
    "\<bar>targetLaneX lateWorld\<bar> \<le> 1000"
    by (simp_all add: w)
  have time: "0 \<le> elapsedSinceStart lateWorld" "elapsedSinceStart lateWorld \<le> 1000000"
    "(0::real) \<le> 1 / 60" "(1 / 60 :: real) \<le> 1 / 16"
    by (simp_all add: w)
  have side: "lateralStep lateWorld (1 / 60) ?p = 0"
    by (simp add: lateralStep_def lateWorld_def)
  have fwd: "forwardStep lateWorld (1 / 60) = 3001 / 7200"
    by (simp add: forwardStep_def lateWorld_def baseForwardSpeed_def)
  have small: "forwardStep lateWorld (1 / 60) * forwardStep lateWorld (1 / 60) \<le> 1.2"
    unfolding fwd by simp
  have near: "lateralStep lateWorld (1 / 60) ?p * lateralStep lateWorld (1 / 60) ?p
               + forwardStep lateWorld (1 / 60) * forwardStep lateWorld (1 / 60) \<le> 1.2"
    using small by (simp add: side)
  have none: "\<not> (\<exists>seg \<in> set (slideSegments lateWorld).
           \<bar>position_z seg\<bar> > 1000
           \<or> position_z seg + forwardStep lateWorld (1 / 60) - SEGMENT_LENGTH / 2
             > camera_position_z + 5 - 1 / 1000)"
    unfolding fwd by (simp add: lateWorld_def SEGMENT_LENGTH_def camera_position_z_def)
  then have kept: "\<forall>seg \<in> set (slideSegments lateWorld). \<bar>position_z seg\<bar> \<le> 1000
         \<and> (position_z seg + forwardStep lateWorld (1 / 60) - SEGMENT_LENGTH / 2
                > camera_position_z + 5 - 1 / 1000
              \<longrightarrow> SEGMENT_LENGTH * 0.6 + 1 / 1000
                  \<le> \<bar>position_z ?p
                     - (position_z seg + forwardStep lateWorld (1 / 60)
                        - SEGMENT_LENGTH * real SEGMENT_COUNT)\<bar>)"
    by (meson not_le)
  have tap: "OverlayTap \<notin> set [Frame 30033, PointerDown 100, PointerMove 200, PointerUp]"
    by simp
  from collision_law[OF a pos time near kept tap, of constant_random] a w side small none tap
  show ?thesis by blast
qed

text \<open>
  The claim as stated fails: \<open>updateGame\<close> moves the player and the obstacles before
  \<open>checkCollisions\<close> measures the distance. Thirty seconds into a game a tick of 0.05
  seconds carries an obstacle from the player's position to 1.25 units behind it, outside
  the combined radius of 1.1, and the game goes on.
\<close>

theorem collision_law_counterexample:
  "gameState lateWorld = PLAYING
   \<and> player lateWorld = Some \<lparr>position_x = 0, position_y = 1, position_z = 0\<rparr>
   \<and> \<lparr>position_x = 0, position_y = 1, position_z = 0\<rparr> \<in> set (obstacles lateWorld)
   \<and> (0::real) \<le> 1 / 20 \<and> (1 / 20 :: real) \<le> 0.05
   \<and> gameState (updateGame constant_random (1 / 20) lateWorld) = PLAYING
   \<and> obstacles (updateGame constant_random (1 / 20) lateWorld)
       = [\<lparr>position_x = 0, position_y = 1, position_z = 1.25125\<rparr>]"
  by (simp add: lateWorld_def updateGame_def Let_def updateSegment_def
        checkCollisions_def hits_def distSq_def triggerGameOver_def
        baseForwardSpeed_def SEGMENT_LENGTH_def SEGMENT_COUNT_def camera_position_z_def
        playerRadius_def obstacleRadius_def LERP_FACTOR_def)

section \<open>The sweep after a tick\<close>

lemma player_reachable:
  "player (run rnd events (init rnd)) \<noteq> None"
proof (rule run_invariant_any[where I = "\<lambda>v. player v \<noteq> None"])
  show "player (init rnd) \<noteq> None" by (simp add: init_fields)
  show "player (dispatch rnd e v) \<noteq> None" if "player v \<noteq> None" for e v
    using that
    by (cases e)
       (auto simp: animate_def Let_def updateGame_fields pointer_frame handleOverlayTap_def
          startGame_fields)
qed

text \<open>
  Claim C3, as amended. After every PLAYING tick that does not end in GAME_OVER, no
  obstacle remains in the obstacle list whose forward-axis position is more than 10
  units past the camera, whichever segment it was spawned on. (In the tick that finds
  a collision \<open>checkCollisions\<close> returns before it removes anything.)
\<close>

theorem cleanup_after_surviving_tick:
  assumes "w = run rnd events (init rnd)"
    and "gameState w = PLAYING"
    and "gameState (animate rnd time w) = PLAYING"
  shows "\<forall>obs \<in> set (obstacles (animate rnd time w)).
           \<not> position_z obs > camera_position_z + 10"
proof -
  define delta where "delta = min ((time - lastTime w) / 1000) 0.05"
  define v where "v = beforeCollisionCheck rnd delta (w\<lparr>lastTime := time\<rparr>)"
  have tick: "animate rnd time w = checkCollisions v"
    using assms(2) by (simp add: animate_def Let_def updateGame_checkCollisions v_def delta_def)
  from player_reachable[of rnd events] assms(1) obtain p where "player w = Some p"
    by auto
  then obtain p' where p': "player v = Some p'"
    by (simp add: v_def beforeCollisionCheck_fields)
  have "gameState (triggerGameOver v) = GAME_OVER"
    by (simp add: triggerGameOver_def Let_def)
  with assms(3) tick checkCollisions_cases[OF p']
  have "checkCollisions v =
      v\<lparr>obstacles := filter (\<lambda>obs. \<not> position_z obs > camera_position_z + 10) (obstacles v)\<rparr>"
    by auto
  then show ?thesis by (simp add: tick)
qed

theorem cleanup_after_surviving_tick_witness:
  "startedWorld = run constant_random [OverlayTap] (init constant_random)
   \<and> gameState startedWorld = PLAYING
   \<and> gameState (animate constant_random 16 startedWorld) = PLAYING
   \<and> \<not> (\<exists>obs \<in> set (obstacles (animate constant_random 16 startedWorld)).
           position_z obs > camera_position_z + 10)"
proof -
  have a: "startedWorld = run constant_random [OverlayTap] (init constant_random)"
    by (simp add: startedWorld_def run_def handleOverlayTap_def init_fields)
  have b: "gameState startedWorld = PLAYING"
    by (simp add: startedWorld_eval)
  have c: "gameState (animate constant_random 16 startedWorld) = PLAYING"
    by (simp add: startedWorld_eval animate_def updateGame_def Let_def updateSegment_def
        checkCollisions_def hits_def distSq_def triggerGameOver_def
        baseForwardSpeed_def SEGMENT_LENGTH_def SEGMENT_COUNT_def camera_position_z_def
        playerRadius_def obstacleRadius_def LERP_FACTOR_def)
  from cleanup_after_surviving_tick[OF a b c] a b c show ?thesis by blast
qed

theorem cleanup_counterexample:
  "gameState crashWorld = PLAYING
   \<and> obstacles (animate constant_random 10000 crashWorld)
       = [\<lparr>position_x = 1.5, position_y = 0.6, position_z = 18.65\<rparr>,
          \<lparr>position_x = 0, position_y = 0.6, position_z = -0.35\<rparr>]
   \<and> position_z \<lparr>position_x = 1.5, position_y = 0.6, position_z = 18.65\<rparr>
       > camera_position_z + 10"
  by (simp add: crashWorld_tick) (simp add: crashWorld_def camera_position_z_def)


section \<open>Lane clamping\<close>

text \<open>
  Claim C4. For every lane-change request \<open>setLane(i)\<close> with any integer \<open>i\<close>, the
  resulting \<open>currentLaneIndex\<close> lies between 0 and \<open>laneCount - 1\<close>, and the request
  for index 5 with the three lanes of the game yields index 2.
\<close>

theorem setLane_clamps:
  "0 \<le> currentLaneIndex (setLane i w)
   \<and> currentLaneIndex (setLane i w) \<le> int (length LANE_X_POSITIONS) - 1
   \<and> length LANE_X_POSITIONS = 3
   \<and> currentLaneIndex (setLane 5 w) = 2"
  by (simp add: setLane_def LANE_X_POSITIONS_def Let_def)

section \<open>Speed ramp\<close>

lemma speed_step:
  assumes inv: "forwardSpeed v = baseForwardSpeed + 0.5 * elapsedSinceStart v
                \<and> 0 \<le> elapsedSinceStart v"
    and ok: "case e of Frame t \<Rightarrow> lastTime v \<le> t | _ \<Rightarrow> True"
  shows "forwardSpeed (dispatch rnd e v) =
           baseForwardSpeed + 0.5 * elapsedSinceStart (dispatch rnd e v)
         \<and> 0 \<le> elapsedSinceStart (dispatch rnd e v)"
proof (cases e)
  case (Frame t)
  with ok have "0 \<le> min ((t - lastTime v) / 1000) 0.05" by simp
  with inv Frame show ?thesis
    by (simp add: animate_def Let_def updateGame_fields)
next
  case OverlayTap
  with inv show ?thesis
    by (simp add: handleOverlayTap_def startGame_fields)
qed (use inv in \<open>simp_all add: pointer_frame\<close>)

lemma speed_reachable:
  assumes "frames_monotone 0 es"
  shows "forwardSpeed (run rnd es (init rnd)) =
           baseForwardSpeed + 0.5 * elapsedSinceStart (run rnd es (init rnd))
         \<and> 0 \<le> elapsedSinceStart (run rnd es (init rnd))"
proof (rule run_invariant[where I = "\<lambda>v. forwardSpeed v = baseForwardSpeed + 0.5 * elapsedSinceStart v
                \<and> 0 \<le> elapsedSinceStart v"])
  show "frames_monotone (lastTime (init rnd)) es"
    using assms by (simp add: init_fields)
  show "forwardSpeed (init rnd) = baseForwardSpeed + 0.5 * elapsedSinceStart (init rnd)
        \<and> 0 \<le> elapsedSinceStart (init rnd)"
    by (simp add: init_fields)
qed (rule speed_step)

lemma frames_monotone_prefix:
  "frames_monotone t (es @ es') \<Longrightarrow> frames_monotone t es"
proof (induction es arbitrary: t)
  case Nil
  then show ?case by simp
next
  case (Cons e es)
  then show ?case by (cases e) auto
qed


lemma elapsed_is_survivalTime:
  "elapsedSinceStart (run rnd events w)
     = survivalTime rnd (elapsedSinceStart w) events w"
proof (induction events arbitrary: w)
  case Nil
  then show ?case by (simp add: run_Nil)
next
  case (Cons e events)
  have "elapsedSinceStart (dispatch rnd e w) =
       (case e of
          Frame time \<Rightarrow>
            if gameState w = PLAYING
            then elapsedSinceStart w + min ((time - lastTime w) / 1000) 0.05
            else elapsedSinceStart w
        | OverlayTap \<Rightarrow>
            if gameState w = READY \<or> gameState w = GAME_OVER then 0
            else elapsedSinceStart w
        | _ \<Rightarrow> elapsedSinceStart w)"
    by (cases e)
       (simp_all add: animate_def Let_def updateGame_fields pointer_frame
          handleOverlayTap_def startGame_fields)
  with Cons.IH[of "dispatch rnd e w"] show ?case
    by (simp add: run_Cons)
qed

text \<open>
  Claim C5. For all ticks while PLAYING, \<open>forwardSpeed\<close> equals \<open>baseForwardSpeed\<close>
  plus 0.5 times the accumulated elapsed survival time; hence it is at least
  \<open>baseForwardSpeed\<close> and does not decrease over a tick with a non-negative delta
  time. In every world the game reaches from its initial world by frames with
  non-decreasing time stamps, pointer events and taps, \<open>elapsedSinceStart\<close> is the
  survival time accumulated over the events (0 at a start, plus the delta time of every
  frame that arrives while PLAYING) and \<open>forwardSpeed\<close> is \<open>baseForwardSpeed\<close> plus
  half of it; the next frame, while PLAYING, adds its delta time and does not lower the
  speed.
\<close>

theorem forwardSpeed_linear_ramp:
  assumes "frames_monotone 0 (events @ [Frame time])"
  shows "elapsedSinceStart (run rnd events (init rnd))
           = survivalTime rnd 0 events (init rnd)
         \<and> forwardSpeed (run rnd events (init rnd)) =
           baseForwardSpeed + 0.5 * survivalTime rnd 0 events (init rnd)
         \<and> baseForwardSpeed \<le> forwardSpeed (run rnd events (init rnd))
         \<and> forwardSpeed (run rnd events (init rnd))
             \<le> forwardSpeed (animate rnd time (run rnd events (init rnd)))
         \<and> (gameState (run rnd events (init rnd)) = PLAYING \<longrightarrow>
              survivalTime rnd 0 (events @ [Frame time]) (init rnd)
                = survivalTime rnd 0 events (init rnd)
                  + min ((time - lastTime (run rnd events (init rnd))) / 1000) 0.05)"
proof -
  let ?w = "run rnd events (init rnd)"
  have mono: "frames_monotone 0 events"
    using assms by (rule frames_monotone_prefix)
  have el: "elapsedSinceStart ?w = survivalTime rnd 0 events (init rnd)"
    using elapsed_is_survivalTime[of rnd events "init rnd"] by (simp add: init_fields)
  have inv: "forwardSpeed ?w = baseForwardSpeed + 0.5 * elapsedSinceStart ?w"
    "0 \<le> elapsedSinceStart ?w"
    using speed_reachable[OF mono] by simp_all
  have "lastTime ?w \<le> time"
    using frames_monotone_snoc[of "init rnd" events time rnd] assms
    by (simp add: init_fields)
  then have "0 \<le> min ((time - lastTime ?w) / 1000) 0.05" by simp
  with inv have grow: "forwardSpeed ?w \<le> forwardSpeed (animate rnd time ?w)"
    by (simp add: animate_def Let_def updateGame_fields)
  have next_tick: "survivalTime rnd 0 (events @ [Frame time]) (init rnd)
                = survivalTime rnd 0 events (init rnd)
                  + min ((time - lastTime ?w) / 1000) 0.05"
    if "gameState ?w = PLAYING"
  proof -
    have "survivalTime rnd 0 (events @ [Frame time]) (init rnd)
        = elapsedSinceStart (run rnd (events @ [Frame time]) (init rnd))"
      using elapsed_is_survivalTime[of rnd "events @ [Frame time]" "init rnd"]
      by (simp add: init_fields)
    also have "\<dots> = elapsedSinceStart (animate rnd time ?w)"
      by (simp add: run_snoc)
    also have "\<dots> = elapsedSinceStart ?w + min ((time - lastTime ?w) / 1000) 0.05"
      using that by (simp add: animate_def Let_def updateGame_fields)
    finally show ?thesis by (simp add: el)
  qed
  from el inv grow next_tick show ?thesis by simp
qed

theorem forwardSpeed_linear_ramp_witness:
  "frames_monotone 0 ([OverlayTap, Frame 16] @ [Frame 33])
   \<and> gameState (run constant_random [OverlayTap, Frame 16] (init constant_random)) = PLAYING
   \<and> survivalTime constant_random 0 [OverlayTap, Frame 16] (init constant_random) = 2 / 125
   \<and> elapsedSinceStart (run constant_random [OverlayTap, Frame 16] (init constant_random))
       = 2 / 125
   \<and> forwardSpeed (run constant_random [OverlayTap, Frame 16] (init constant_random))
       = baseForwardSpeed + 0.5 * (2 / 125)
   \<and> survivalTime constant_random 0 ([OverlayTap, Frame 16] @ [Frame 33])
         (init constant_random) = 2 / 125 + 17 / 1000
   \<and> forwardSpeed (run constant_random [OverlayTap, Frame 16] (init constant_random))
       \<le> forwardSpeed (animate constant_random 33
             (run constant_random [OverlayTap, Frame 16] (init constant_random)))"
proof -
  have h: "frames_monotone 0 ([OverlayTap, Frame 16] @ [Frame 33])" by simp
  have started: "run constant_random [OverlayTap] (init constant_random) = startedWorld"
    by (simp add: startedWorld_def run_def handleOverlayTap_def init_fields)
  have s: "survivalTime constant_random 0 [OverlayTap, Frame 16] (init constant_random) = 2 / 125"
    using started
    by (simp add: init_fields handleOverlayTap_def run_def)
       (simp add: startedWorld_eval)
  have t: "lastTime (run constant_random [OverlayTap, Frame 16] (init constant_random)) = 16"
    by (simp add: run_def animate_lastTime)
  have p: "gameState (run constant_random [OverlayTap, Frame 16] (init constant_random)) = PLAYING"
    using started
    by (simp add: run_def startedWorld_eval animate_def updateGame_def Let_def updateSegment_def
        checkCollisions_def hits_def distSq_def triggerGameOver_def
        baseForwardSpeed_def SEGMENT_LENGTH_def SEGMENT_COUNT_def camera_position_z_def
        playerRadius_def obstacleRadius_def LERP_FACTOR_def)
  from forwardSpeed_linear_ramp[OF h, of constant_random] h s t p show ?thesis
    by (simp del: survivalTime.simps frames_monotone.simps append.simps)
qed


text \<open>
  In doubles a tick computes the same sum and the same ramp, each operation rounded.
  Rounding is monotone and leaves the base speed as it is, so the speed is still at least
  the base speed and does not decrease from tick to tick.
\<close>

lemma forwardSpeed_fl_ramp:
  assumes "0 \<le> elapsed" and "fl elapsed = elapsed" and "0 \<le> delta"
  shows "elapsed \<le> fl (elapsed + delta)"
    and "baseForwardSpeed \<le> forwardSpeed_fl elapsed"
    and "forwardSpeed_fl elapsed \<le> forwardSpeed_fl (fl (elapsed + delta))"
proof -
  show grow: "elapsed \<le> fl (elapsed + delta)"
    using assms(2,3) by (intro fl_lower) simp_all
  have "0 \<le> fl (elapsed * 0.5)" using assms(1) by (intro fl_nonneg) simp
  then show "baseForwardSpeed \<le> forwardSpeed_fl elapsed"
    unfolding forwardSpeed_fl_def
    by (intro fl_lower) (simp_all add: baseForwardSpeed_def fl_consts)
  have "fl (elapsed * 0.5) \<le> fl (fl (elapsed + delta) * 0.5)"
    using grow by (intro fl_mono) simp
  then show "forwardSpeed_fl elapsed \<le> forwardSpeed_fl (fl (elapsed + delta))"
    unfolding forwardSpeed_fl_def by (intro fl_mono) simp
qed

section \<open>Score\<close>

text \<open>
  Claim C6. The score is non-decreasing across every tick while the state is PLAYING
  (for a non-negative delta time), stays constant across every tick while the state is
  GAME_OVER, and equals 0 immediately after a start or restart trigger.
\<close>

theorem score_monotone_frozen_reset:
  "(gameState w = PLAYING \<and> 0 \<le> delta \<longrightarrow> score w \<le> score (updateGame rnd delta w))
   \<and> (gameState w = PLAYING \<and> lastTime w \<le> time \<longrightarrow> score w \<le> score (animate rnd time w))
   \<and> (gameState w = GAME_OVER \<longrightarrow> score (animate rnd time w) = score w)
   \<and> (gameState w = READY \<or> gameState w = GAME_OVER \<longrightarrow>
        score (handleOverlayTap rnd w) = 0 \<and> gameState (handleOverlayTap rnd w) = PLAYING)"
proof -
  have "0 \<le> min ((time - lastTime w) / 1000) 0.05" if "lastTime w \<le> time"
    using that by simp
  then show ?thesis
    by (simp add: animate_def Let_def updateGame_fields handleOverlayTap_def startGame_fields)
qed


theorem score_monotone_frozen_reset_witness:
  "gameState startedWorld = PLAYING \<and> (0::real) \<le> 1 / 60
   \<and> score startedWorld \<le> score (updateGame constant_random (1 / 60) startedWorld)
   \<and> lastTime startedWorld \<le> 16
   \<and> score startedWorld \<le> score (animate constant_random 16 startedWorld)
   \<and> gameState (animate constant_random 10000 crashWorld) = GAME_OVER
   \<and> score (animate constant_random 10016 (animate constant_random 10000 crashWorld))
       = score (animate constant_random 10000 crashWorld)
   \<and> gameState (init constant_random) = READY
   \<and> score (handleOverlayTap constant_random (init constant_random)) = 0
   \<and> gameState (handleOverlayTap constant_random (init constant_random)) = PLAYING"
proof -
  have playing: "gameState startedWorld = PLAYING" "lastTime startedWorld \<le> 16"
    by (simp_all add: startedWorld_eval)
  have over: "gameState (animate constant_random 10000 crashWorld) = GAME_OVER"
    by (simp add: crashWorld_tick)
  have ready: "gameState (init constant_random) = READY"
    by (simp add: init_fields)
  from playing
    score_monotone_frozen_reset[of startedWorld "1 / 60" constant_random 16]
  have a: "score startedWorld \<le> score (updateGame constant_random (1 / 60) startedWorld)"
    "score startedWorld \<le> score (animate constant_random 16 startedWorld)"
    by simp_all
  from over
    score_monotone_frozen_reset[of "animate constant_random 10000 crashWorld" 0
      constant_random 10016]
  have b: "score (animate constant_random 10016 (animate constant_random 10000 crashWorld))
       = score (animate constant_random 10000 crashWorld)"
    by simp
  from ready score_monotone_frozen_reset[of "init constant_random" 0 constant_random 0]
  have c: "score (handleOverlayTap constant_random (init constant_random)) = 0"
    "gameState (handleOverlayTap constant_random (init constant_random)) = PLAYING"
    by simp_all
  from playing over ready a b c show ?thesis by simp
qed


section \<open>High score\<close>

text \<open>
  Claim C7. At every transition from PLAYING to GAME_OVER the new high score is the
  maximum of the previous high score and the current score.
\<close>

theorem highScore_max_at_game_over:
  "highScore (triggerGameOver w) = max (highScore w) (score w)
   \<and> (gameState w = PLAYING \<and> gameState (updateGame rnd delta w) = GAME_OVER \<longrightarrow>
        highScore (updateGame rnd delta w)
          = max (highScore w) (score (updateGame rnd delta w)))"
proof -
  let ?v = "beforeCollisionCheck rnd delta w"
  have trigger: "highScore (triggerGameOver u) = max (highScore u) (score u)" for u
    by (simp add: triggerGameOver_def Let_def max_def)
  have "highScore (checkCollisions ?v) = max (highScore ?v) (score (checkCollisions ?v))"
    if "gameState ?v = PLAYING" "gameState (checkCollisions ?v) = GAME_OVER"
    using that
    by (auto simp: checkCollisions_def trigger triggerGameOver_frame
          split: option.splits)
  then show ?thesis
    by (simp add: trigger updateGame_checkCollisions beforeCollisionCheck_fields)
qed

theorem highScore_max_at_game_over_witness:
  "gameState (crashWorld\<lparr>lastTime := 10000\<rparr>) = PLAYING
   \<and> gameState (updateGame constant_random (1 / 20) (crashWorld\<lparr>lastTime := 10000\<rparr>)) = GAME_OVER
   \<and> highScore (updateGame constant_random (1 / 20) (crashWorld\<lparr>lastTime := 10000\<rparr>))
       = max (highScore (crashWorld\<lparr>lastTime := 10000\<rparr>))
           (score (updateGame constant_random (1 / 20) (crashWorld\<lparr>lastTime := 10000\<rparr>)))
   \<and> highScore (updateGame constant_random (1 / 20) (crashWorld\<lparr>lastTime := 10000\<rparr>)) = 100"
proof -
  have tick: "updateGame constant_random (1 / 20) (crashWorld\<lparr>lastTime := 10000\<rparr>)
      = animate constant_random 10000 crashWorld"
    by (simp add: animate_def Let_def crashWorld_def)
  have h: "gameState (crashWorld\<lparr>lastTime := 10000\<rparr>) = PLAYING"
    "gameState (updateGame constant_random (1 / 20) (crashWorld\<lparr>lastTime := 10000\<rparr>)) = GAME_OVER"
    by (simp add: crashWorld_def, simp add: tick crashWorld_tick)
  have "highScore (updateGame constant_random (1 / 20) (crashWorld\<lparr>lastTime := 10000\<rparr>)) = 100"
    by (simp add: tick crashWorld_tick)
  with h highScore_max_at_game_over[of "crashWorld\<lparr>lastTime := 10000\<rparr>" constant_random "1 / 20"]
  show ?thesis by simp
qed



section \<open>Swipes outside PLAYING\<close>

text \<open>
  In \<open>src/main.ts\<close> a gesture does nothing unless the game is PLAYING: a press does
  not start a drag, and a move returns before it looks at the displacement.
\<close>

lemma main_ts_gesture_outside_playing:
  assumes "gameState_main s \<noteq> PLAYING"
  shows "handleTouchStart x0 y0 s = s"
    and "handleTouchMove x y s = s"
    and "currentLane (handleTouchEnd (handleTouchMove x y (handleTouchStart x0 y0 s)))
           = currentLane s"
    and "gameState_main (handleTouchEnd (handleTouchMove x y (handleTouchStart x0 y0 s)))
           = gameState_main s"
  using assms
  by (simp_all add: handleTouchStart_def handleTouchMove_def handleTouchEnd_def)

text \<open>
  Claim C8 says that a swipe performed while the game state is READY or GAME_OVER is a
  no-op. The pointer handlers of the game proper do not look at the game state: in the
  initial world (READY) a press at 100, a move to 200 and a release move the lane index
  from 1 to 2 and the target lane X from 0 to 1.5. The game state stays READY.
\<close>

theorem swipe_while_ready_changes_lane:
  "gameState (init constant_random) = READY
   \<and> currentLaneIndex (init constant_random) = 1
   \<and> targetLaneX (init constant_random) = 0
   \<and> gameState (run constant_random [PointerDown 100, PointerMove 200, PointerUp]
                  (init constant_random)) = READY
   \<and> currentLaneIndex (run constant_random [PointerDown 100, PointerMove 200, PointerUp]
                         (init constant_random)) = 2
   \<and> targetLaneX (run constant_random [PointerDown 100, PointerMove 200, PointerUp]
                    (init constant_random)) = 1.5"
  by (simp add: run_def init_fields onPointerDown_def onPointerMove_def onPointerUp_def
        setLane_def Let_def SWIPE_THRESHOLD_def LANE_X_POSITIONS_def)


section \<open>Player positioning\<close>

text \<open>
  In exact arithmetic the lane step is a convex combination of the old coordinate and the
  target, for every non-negative delta time: the factor \<open>min (LERP_FACTOR * delta) 1\<close>
  lies between 0 and 1.
\<close>

lemma lerp_exact_between:
  assumes "player w = Some p" and "0 \<le> delta"
  shows "\<exists>p'. player (updateGame rnd delta w) = Some p'
           \<and> targetLaneX (updateGame rnd delta w) = targetLaneX w
           \<and> min (position_x p) (targetLaneX w) \<le> position_x p'
           \<and> position_x p' \<le> max (position_x p) (targetLaneX w)
           \<and> \<bar>targetLaneX w - position_x p'\<bar> \<le> \<bar>targetLaneX w - position_x p\<bar>"
proof -
  define f where "f = min (LERP_FACTOR * delta) 1"
  define x' where "x' = position_x p + (targetLaneX w - position_x p) * f"
  have f: "0 \<le> f" "f \<le> 1"
    using assms(2) by (simp_all add: f_def LERP_FACTOR_def)
  have x'_eq: "x' = (1 - f) * position_x p + f * targetLaneX w"
    by (simp add: x'_def algebra_simps)
  have between: "min (position_x p) (targetLaneX w) \<le> x'"
    "x' \<le> max (position_x p) (targetLaneX w)"
  proof -
    have "(1 - f) * min (position_x p) (targetLaneX w) \<le> (1 - f) * position_x p"
      "f * min (position_x p) (targetLaneX w) \<le> f * targetLaneX w"
      using f by (simp_all add: mult_left_mono)
    then show "min (position_x p) (targetLaneX w) \<le> x'"
      unfolding x'_eq by (simp add: algebra_simps)
    have "(1 - f) * position_x p \<le> (1 - f) * max (position_x p) (targetLaneX w)"
      "f * targetLaneX w \<le> f * max (position_x p) (targetLaneX w)"
      using f by (simp_all add: mult_left_mono)
    then show "x' \<le> max (position_x p) (targetLaneX w)"
      unfolding x'_eq by (simp add: algebra_simps)
  qed
  have "targetLaneX w - x' = (1 - f) * (targetLaneX w - position_x p)"
    by (simp add: x'_def algebra_simps)
  then have "\<bar>targetLaneX w - x'\<bar> = (1 - f) * \<bar>targetLaneX w - position_x p\<bar>"
    using f by (simp add: abs_mult)
  also have "\<dots> \<le> 1 * \<bar>targetLaneX w - position_x p\<bar>"
    using f by (intro mult_right_mono) simp_all
  finally have closer: "\<bar>targetLaneX w - x'\<bar> \<le> \<bar>targetLaneX w - position_x p\<bar>"
    by simp
  have moved: "player (updateGame rnd delta w) = Some (p\<lparr>position_x := x'\<rparr>)"
    using assms(1) by (simp add: updateGame_fields x'_def f_def)
  have "targetLaneX (updateGame rnd delta w) = targetLaneX w"
    by (simp add: updateGame_fields)
  with moved between closer show ?thesis
    by (intro exI[of _ "p\<lparr>position_x := x'\<rparr>"]) simp
qed







section \<open>The game-over transition\<close>

text \<open>
  Claim C10. The game-over transition is atomic with respect to the world:
  \<open>triggerGameOver\<close> changes only the game state (to GAME_OVER) and possibly the high
  score; the score, the elapsed time, \<open>forwardSpeed\<close>, the player position, every
  segment position and the obstacle collection are left as they were. The second part
  says the same of the tick in which the collision is found: the world it leaves is the
  world that \<open>checkCollisions\<close> received, but for the game state and the high score.
\<close>

theorem triggerGameOver_frame_only:
  "triggerGameOver w = w\<lparr>gameState := GAME_OVER, highScore := max (highScore w) (score w)\<rparr>
   \<and> score (triggerGameOver w) = score w
   \<and> elapsedSinceStart (triggerGameOver w) = elapsedSinceStart w
   \<and> forwardSpeed (triggerGameOver w) = forwardSpeed w
   \<and> player (triggerGameOver w) = player w
   \<and> slideSegments (triggerGameOver w) = slideSegments w
   \<and> obstacles (triggerGameOver w) = obstacles w
   \<and> (gameState w = PLAYING \<and> gameState (checkCollisions w) = GAME_OVER \<longrightarrow>
        checkCollisions w
          = w\<lparr>gameState := GAME_OVER, highScore := max (highScore w) (score w)\<rparr>)"
proof -
  have eq: "triggerGameOver u
      = u\<lparr>gameState := GAME_OVER, highScore := max (highScore u) (score u)\<rparr>" for u
    by (cases "score u > highScore u") (simp_all add: triggerGameOver_def Let_def max_def)
  have "checkCollisions w = triggerGameOver w"
    if "gameState w = PLAYING" "gameState (checkCollisions w) = GAME_OVER"
    using that by (auto simp: checkCollisions_def split: option.splits)
  then show ?thesis
    by (simp add: triggerGameOver_frame) (simp add: eq)
qed

theorem triggerGameOver_frame_only_witness:
  "gameState (beforeCollisionCheck constant_random (1 / 20) crashWorld) = PLAYING
   \<and> gameState (checkCollisions (beforeCollisionCheck constant_random (1 / 20) crashWorld))
       = GAME_OVER
   \<and> checkCollisions (beforeCollisionCheck constant_random (1 / 20) crashWorld)
       = (beforeCollisionCheck constant_random (1 / 20) crashWorld)
           \<lparr>gameState := GAME_OVER,
            highScore := max (highScore (beforeCollisionCheck constant_random (1 / 20) crashWorld))
                             (score (beforeCollisionCheck constant_random (1 / 20) crashWorld))\<rparr>"
proof -
  let ?v = "beforeCollisionCheck constant_random (1 / 20) crashWorld"
  have tick: "checkCollisions ?v = (animate constant_random 10000 crashWorld)\<lparr>lastTime := 9950\<rparr>"
    by (simp add: animate_def Let_def updateGame_checkCollisions[symmetric] crashWorld_def
         cong: if_cong) (simp add: updateGame_def Let_def updateSegment_def
        checkCollisions_def hits_def distSq_def triggerGameOver_def
        baseForwardSpeed_def SEGMENT_LENGTH_def SEGMENT_COUNT_def camera_position_z_def
        playerRadius_def obstacleRadius_def LERP_FACTOR_def)
  have h: "gameState ?v = PLAYING" "gameState (checkCollisions ?v) = GAME_OVER"
    by (simp add: beforeCollisionCheck_fields crashWorld_def, simp add: tick crashWorld_tick)
  with triggerGameOver_frame_only[of ?v] show ?thesis by simp
qed

end
